theory Spec2Isabelle
  imports Complex_Main "HOL-Library.Sublist" "HOL-Library.Word"
begin

section \<open>wpreddit/download.py: a shallow embedding\<close>

text \<open>
  The module is Python 3 on top of three libraries: \<^verbatim>\<open>re\<close>, \<^verbatim>\<open>requests\<close> and PIL
  (Pillow, a release that still has \<^verbatim>\<open>Image.ANTIALIAS\<close> and \<^verbatim>\<open>font.getsize\<close>).
  The functions of the module are translated line by line. A library call is either
  modelled by what the library computes (string methods, the two regular expressions,
  \<^verbatim>\<open>Image.new\<close>, \<^verbatim>\<open>split\<close>, \<^verbatim>\<open>paste\<close>, \<^verbatim>\<open>copy\<close>, \<^verbatim>\<open>ImageOps.fit\<close>) or, where
  the result is outside the module's control (the network, the decoder, the font
  rasteriser, the resampling filter), taken as a parameter.
\<close>

subsection \<open>Python exceptions\<close>

text \<open>
  \<^verbatim>\<open>IOError\<close> stands for \<^verbatim>\<open>OSError\<close> and all its subclasses (in Python 3
  \<^verbatim>\<open>IOError\<close> is \<^verbatim>\<open>OSError\<close>; the exceptions of \<^verbatim>\<open>requests\<close> and PIL's
  \<^verbatim>\<open>UnidentifiedImageError\<close> derive from it). \<^verbatim>\<open>sys.exit(n)\<close> raises
  \<^verbatim>\<open>SystemExit(n)\<close>. A call that raises returns \<open>Inl\<close> of the exception.
\<close>

datatype exn =
  IOError | IndexError | ValueError | ZeroDivisionError | TypeError | OverflowError
  | SystemError | SystemExit int

subsection \<open>Strings\<close>

text \<open>
  A Python \<^verbatim>\<open>str\<close> is a sequence of code points. A \<^typ>\<open>char\<close> is read here as a code
  point below 256 (Latin-1), so the model covers the strings over these code points.
  \<^verbatim>\<open>str.isspace\<close> holds there for the code points 9 to 13, 28 to 32, 133 and 160;
  \<^verbatim>\<open>str.lower\<close> maps A..Z and the Latin-1 capitals 192..222 (215, the multiplication
  sign, apart) to the code point 32 above and leaves the rest.
\<close>

definition isspace :: "char \<Rightarrow> bool" where
  "isspace c \<longleftrightarrow>
     (of_char c :: nat) \<in> {9, 10, 11, 12, 13, 28, 29, 30, 31, 32, 133, 160}"

definition lower_char :: "char \<Rightarrow> char" where
  "lower_char c =
     (let n = (of_char c :: nat)
      in if (65 \<le> n \<and> n \<le> 90) \<or> (192 \<le> n \<and> n \<le> 222 \<and> n \<noteq> 215)
         then char_of (n + 32) else c)"

text \<open>\<^verbatim>\<open>s.lower()\<close>\<close>

definition lower :: "string \<Rightarrow> string" where
  "lower s = map lower_char s"

text \<open>\<^verbatim>\<open>s.replace(old, '')\<close> for a one-character \<^verbatim>\<open>old\<close>: every occurrence is deleted.\<close>

definition replace_char :: "char \<Rightarrow> string \<Rightarrow> string" where
  "replace_char old s = filter (\<lambda>c. c \<noteq> old) s"

text \<open>\<^verbatim>\<open>s.strip()\<close>: whitespace is removed from both ends, and only there.\<close>

definition strip :: "string \<Rightarrow> string" where
  "strip s = rev (dropWhile isspace (rev (dropWhile isspace s)))"

text \<open>\<^verbatim>\<open>sub in s\<close>: \<open>sub\<close> occurs in \<open>s\<close> as a contiguous substring.\<close>

fun contains :: "string \<Rightarrow> string \<Rightarrow> bool" where
  "contains sub [] = (sub = [])"
| "contains sub (c # cs) = (prefix sub (c # cs) \<or> contains sub cs)"

subsection \<open>\<^verbatim>\<open>remove_tags\<close> (lines 103 to 105)\<close>

text \<open>
  The inner \<^verbatim>\<open>re.sub(pattern, "", str)\<close>. The pattern is a character class of the three
  opening brackets (square, round, angle), then \<^verbatim>\<open>.*?\<close>, then a character class of
  the three closing brackets. \<^verbatim>\<open>.\<close> matches every character but the line feed
  (no \<^verbatim>\<open>DOTALL\<close> flag), and \<^verbatim>\<open>*?\<close> is lazy: after the opening character the matcher
  stops at the first closing character, walks over any other character that is not a
  line feed, and fails at a line feed or at the end of the string.
  \<open>lazy_dot_close cs\<close> is that walk: the rest of the string behind the match, if any.
\<close>

definition is_open :: "char \<Rightarrow> bool" where
  "is_open c \<longleftrightarrow> c = CHR ''['' \<or> c = CHR ''('' \<or> c = CHR ''<''"

definition is_close :: "char \<Rightarrow> bool" where
  "is_close c \<longleftrightarrow> c = CHR '']'' \<or> c = CHR '')'' \<or> c = CHR ''>''"

fun lazy_dot_close :: "string \<Rightarrow> string option" where
  "lazy_dot_close [] = None"
| "lazy_dot_close (c # cs) =
     (if is_close c then Some cs
      else if c \<noteq> CHR 0x0A then lazy_dot_close cs
      else None)"

lemma lazy_dot_close_shorter: "lazy_dot_close cs = Some r \<Longrightarrow> length r < length cs"
  by (induction cs) (auto split: if_splits)

text \<open>
  \<^verbatim>\<open>re.sub\<close> scans from the left: where the pattern matches, the match is replaced by
  the empty string and the scan goes on behind it; elsewhere the character is kept.
\<close>

function sub_tags :: "string \<Rightarrow> string" where
  "sub_tags [] = []"
| "sub_tags (c # cs) =
     (if is_open c then
        (case lazy_dot_close cs of
           Some r \<Rightarrow> sub_tags r
         | None \<Rightarrow> c # sub_tags cs)
      else c # sub_tags cs)"
  by pat_completeness auto
termination
  by (relation "measure length") (auto dest: lazy_dot_close_shorter)

text \<open>
  \<^verbatim>\<open>re.sub(' +', ' ', s)\<close>: every maximal run of spaces (\<^verbatim>\<open>+\<close> is greedy) becomes one
  space.
\<close>

function sub_spaces :: "string \<Rightarrow> string" where
  "sub_spaces [] = []"
| "sub_spaces (c # cs) =
     (if c = CHR '' '' then CHR '' '' # sub_spaces (dropWhile (\<lambda>d. d = CHR '' '') cs)
      else c # sub_spaces cs)"
  by pat_completeness auto
termination
  by (relation "measure length") (auto simp: less_Suc_eq_le length_dropWhile_le)

definition remove_tags :: "string \<Rightarrow> string" where
  "remove_tags str = strip (sub_spaces (sub_tags str))"

subsection \<open>Tag deletion in the specification's words\<close>

text \<open>
  These two definitions follow the words of the specification, not the code. The first
  deletes, from the left, each shortest substring that an opening bracket opens and the
  next closing bracket closes, whatever lies between them. The second does so only where
  no line feed lies between the two brackets, and keeps the opening bracket otherwise.
\<close>

function spec_delete_tags :: "string \<Rightarrow> string" where
  "spec_delete_tags [] = []"
| "spec_delete_tags (c # cs) =
     (if is_open c \<and> list_ex is_close cs
      then spec_delete_tags (tl (dropWhile (\<lambda>d. \<not> is_close d) cs))
      else c # spec_delete_tags cs)"
  by pat_completeness auto
termination
proof (relation "measure length")
  fix c :: char and cs :: string
  have "length (tl (dropWhile (\<lambda>d. \<not> is_close d) cs)) \<le> length cs"
    using length_dropWhile_le [of "\<lambda>d. \<not> is_close d" cs] by simp
  then show "(tl (dropWhile (\<lambda>d. \<not> is_close d) cs), c # cs) \<in> measure length"
    by simp
qed simp_all

definition spec_remove_tags :: "string \<Rightarrow> string" where
  "spec_remove_tags s = strip (sub_spaces (spec_delete_tags s))"

function delete_tags_on_line :: "string \<Rightarrow> string" where
  "delete_tags_on_line [] = []"
| "delete_tags_on_line (c # cs) =
     (if is_open c \<and> list_ex is_close cs
         \<and> CHR 0x0A \<notin> set (takeWhile (\<lambda>d. \<not> is_close d) cs)
      then delete_tags_on_line (tl (dropWhile (\<lambda>d. \<not> is_close d) cs))
      else c # delete_tags_on_line cs)"
  by pat_completeness auto
termination
proof (relation "measure length")
  fix c :: char and cs :: string
  have "length (tl (dropWhile (\<lambda>d. \<not> is_close d) cs)) \<le> length cs"
    using length_dropWhile_le [of "\<lambda>d. \<not> is_close d" cs] by simp
  then show "(tl (dropWhile (\<lambda>d. \<not> is_close d) cs), c # cs) \<in> measure length"
    by simp
qed simp_all

subsection \<open>The placement of the title (\<^verbatim>\<open>set_image_title\<close>, lines 53 and 60 to 75)\<close>

text \<open>Line 53: \<^verbatim>\<open>gravity.lower().replace(' ', '').strip()\<close>\<close>

definition normalize_gravity :: "string \<Rightarrow> string" where
  "normalize_gravity gravity = strip (replace_char CHR '' '' (lower gravity))"

text \<open>
  Lines 63 to 68 and 70 to 75. \<open>gravity\<close> is the cleaned string of line 53, \<open>pad\<close>
  is \<^verbatim>\<open>padding[0]\<close> or \<^verbatim>\<open>padding[1]\<close>, \<open>img_size\<close> is \<^verbatim>\<open>ret_img.size[0]\<close> or
  \<^verbatim>\<open>ret_img.size[1]\<close>. The operands are
  Python ints; \<^verbatim>\<open>/\<close> is Python 3's true division, whose result for an int divided by 2
  is the exact half, a float: the coordinates are rationals.
\<close>

definition title_top_left_x :: "string \<Rightarrow> int \<Rightarrow> int \<Rightarrow> int \<Rightarrow> rat" where
  "title_top_left_x gravity pad img_size text_x =
     (if contains ''left'' gravity then of_int pad
      else if contains ''right'' gravity then of_int (img_size - text_x - pad)
      else of_int (img_size - text_x) / 2)"

definition title_top_left_y :: "string \<Rightarrow> int \<Rightarrow> int \<Rightarrow> int \<Rightarrow> rat" where
  "title_top_left_y gravity pad img_size text_y =
     (if contains ''top'' gravity then of_int pad
      else if contains ''bottom'' gravity then of_int (img_size - text_y - pad)
      else of_int (img_size - text_y) / 2)"

text \<open>
  The top-left point that \<^verbatim>\<open>set_image_title\<close> computes from the gravity string as the
  caller passes it, the measured extent of the text, the size of the image and the
  padding (the specification's \<^verbatim>\<open>resolve\<close>).
\<close>

definition resolve :: "string \<Rightarrow> int \<times> int \<Rightarrow> int \<times> int \<Rightarrow> int \<times> int \<Rightarrow> rat \<times> rat" where
  "resolve gravity extent canvas padding =
     (title_top_left_x (normalize_gravity gravity) (fst padding) (fst canvas) (fst extent),
      title_top_left_y (normalize_gravity gravity) (snd padding) (snd canvas) (snd extent))"

subsection \<open>The specification's gravity parser and placement formulas\<close>

text \<open>
  These definitions follow the words of the specification, not the code: the anchors of a
  \<^verbatim>\<open>GravitySpec\<close>, the parsing rule on a normalised string, the placement formula of
  each anchor, and the normalisation "lowercase with all whitespace removed".
\<close>

datatype h_anchor = Left | HCenter | Right

datatype v_anchor = Top | VCenter | Bottom

definition spec_horizontal :: "string \<Rightarrow> h_anchor" where
  "spec_horizontal n =
     (if contains ''left'' n then Left else if contains ''right'' n then Right else HCenter)"

definition spec_vertical :: "string \<Rightarrow> v_anchor" where
  "spec_vertical n =
     (if contains ''top'' n then Top else if contains ''bottom'' n then Bottom else VCenter)"

fun spec_place_x :: "h_anchor \<Rightarrow> int \<Rightarrow> int \<Rightarrow> int \<Rightarrow> rat" where
  "spec_place_x Left gw cw px = of_int px"
| "spec_place_x Right gw cw px = of_int (cw - gw - px)"
| "spec_place_x HCenter gw cw px = of_int (cw - gw) / 2"

fun spec_place_y :: "v_anchor \<Rightarrow> int \<Rightarrow> int \<Rightarrow> int \<Rightarrow> rat" where
  "spec_place_y Top gh ch py = of_int py"
| "spec_place_y Bottom gh ch py = of_int (ch - gh - py)"
| "spec_place_y VCenter gh ch py = of_int (ch - gh) / 2"

definition spec_normalize :: "string \<Rightarrow> string" where
  "spec_normalize g = filter (\<lambda>c. \<not> isspace c) (lower g)"

subsection \<open>PIL images\<close>

text \<open>
  An image has a mode, a size (width, height) and its pixels in row-major order. A pixel
  is the list of its band values, each a byte: three for "RGB", four for "RGBA", one
  for "L". \<open>nbands\<close> is the number of bands of a mode (\<^verbatim>\<open>len(im.getbands())\<close>).
\<close>

type_synonym pixel = "8 word list"

record image =
  mode :: string
  im_size :: "int \<times> int"
  pixels :: "pixel list"

definition nbands :: "string \<Rightarrow> nat" where
  "nbands m =
     (if m \<in> set [''RGBA'', ''CMYK'', ''RGBX'', ''RGBa''] then 4
      else if m \<in> set [''RGB'', ''YCbCr'', ''LAB'', ''HSV''] then 3
      else if m \<in> set [''LA'', ''PA'', ''La''] then 2
      else 1)"

definition wf_image :: "image \<Rightarrow> bool" where
  "wf_image im \<longleftrightarrow>
     0 \<le> fst (im_size im) \<and> 0 \<le> snd (im_size im)
     \<and> length (pixels im) = nat (fst (im_size im) * snd (im_size im))
     \<and> list_all (\<lambda>p. length p = nbands (mode im)) (pixels im)"

text \<open>\<^verbatim>\<open>Image.new(mode, size, color)\<close>: every pixel is \<open>color\<close>.\<close>

definition Image_new :: "string \<Rightarrow> int \<times> int \<Rightarrow> pixel \<Rightarrow> image" where
  "Image_new m sz color =
     \<lparr>mode = m, im_size = sz, pixels = replicate (nat (fst sz * snd sz)) color\<rparr>"

text \<open>\<^verbatim>\<open>im.split()\<close>: one "L" image per band, in band order.\<close>

definition Image_split :: "image \<Rightarrow> image list" where
  "Image_split im =
     map (\<lambda>k. \<lparr>mode = ''L'', im_size = im_size im, pixels = map (\<lambda>p. [p ! k]) (pixels im)\<rparr>)
       [0..<nbands (mode im)]"

text \<open>\<^verbatim>\<open>xs[i]\<close> on a tuple, for an index that is not negative.\<close>

definition index :: "'a list \<Rightarrow> nat \<Rightarrow> exn + 'a" where
  "index xs i = (if i < length xs then Inr (xs ! i) else Inl IndexError)"

text \<open>
  \<^verbatim>\<open>self.paste(im, mask=mask)\<close> with an "L" mask, as Pillow's \<^verbatim>\<open>paste_mask_L\<close> computes
  it: every band of every pixel is
  \<^verbatim>\<open>BLEND(mask, out, in) = DIV255(out * (255 - mask) + in * mask)\<close> with
  \<^verbatim>\<open>DIV255(a) = (tmp = a + 128, ((tmp >> 8) + tmp) >> 8)\<close>, in C \<^verbatim>\<open>unsigned int\<close>
  arithmetic on \<^verbatim>\<open>UINT8\<close> operands (the sum is at most 65153, nothing wraps). An "RGBA"
  source is pasted into an "RGB" image without conversion: the three visible bands
  are blended. PIL pastes into the top-left region of the size of \<open>im\<close>; the model covers
  the case of this module, source and mask of the size of \<open>self\<close>, and gives
  \<open>ValueError\<close> for every other.
\<close>

definition DIV255 :: "nat \<Rightarrow> nat" where
  "DIV255 a = (let tmp = a + 128 in (tmp div 256 + tmp) div 256)"

definition BLEND :: "8 word \<Rightarrow> 8 word \<Rightarrow> 8 word \<Rightarrow> 8 word" where
  "BLEND msk in1 in2 = of_nat (DIV255 (unat in1 * (255 - unat msk) + unat in2 * unat msk))"

definition Image_paste :: "image \<Rightarrow> image \<Rightarrow> image \<Rightarrow> exn + image" where
  "Image_paste self im msk =
     (if im_size im \<noteq> im_size self \<or> im_size msk \<noteq> im_size self then Inl ValueError
      else Inr (self\<lparr>pixels :=
        map (\<lambda>(out, inp, m). map2 (BLEND (hd m)) out inp)
          (zip (pixels self) (zip (pixels im) (pixels msk)))\<rparr>))"

subsection \<open>\<^verbatim>\<open>pure_pil_alpha_to_color_v2\<close> (lines 113 to 117)\<close>

text \<open>The default of the parameter \<^verbatim>\<open>color\<close>.\<close>

definition white :: pixel where
  "white = [255, 255, 255]"

definition pure_pil_alpha_to_color_v2 :: "image \<Rightarrow> pixel \<Rightarrow> exn + image" where
  "pure_pil_alpha_to_color_v2 img color =
     (let background = Image_new ''RGB'' (im_size img) color
      in case index (Image_split img) 3 of
           Inl e \<Rightarrow> Inl e
         | Inr alpha \<Rightarrow> Image_paste background img alpha)"

subsection \<open>\<^verbatim>\<open>resize_image\<close> (lines 34 to 37)\<close>

text \<open>
  \<^verbatim>\<open>im.resize(size, resample, box)\<close>. When the size is the image's own and the box is the
  whole image, PIL returns a copy. Otherwise the size is passed to C as two \<^verbatim>\<open>int\<close>s
  (\<open>OverflowError\<close> for a side outside 32 bits); a size below 1, a box that starts at a
  negative offset, exceeds the image or has a negative extent, and an image of a special
  mode (the "I;16" and "BGR" families, which the resampling filter does not take) are
  refused with \<open>ValueError\<close>. The result has the mode of \<open>im\<close> and the size \<open>size\<close>; its
  pixels are those the resampling filter computes from the box, in floating point:
  \<open>resample\<close> is a parameter.
\<close>

type_synonym box = "rat \<times> rat \<times> rat \<times> rat"

definition c_int :: "int \<Rightarrow> bool" where
  "c_int n \<longleftrightarrow> - (2 ^ 31) \<le> n \<and> n < 2 ^ 31"

definition special_mode :: "string \<Rightarrow> bool" where
  "special_mode m \<longleftrightarrow>
     m \<in> set [''I;16'', ''I;16L'', ''I;16B'', ''I;16N'', ''BGR;15'', ''BGR;16'', ''BGR;24'']"

definition Image_resize ::
  "(image \<Rightarrow> box \<Rightarrow> int \<times> int \<Rightarrow> pixel list) \<Rightarrow> image \<Rightarrow> int \<times> int \<Rightarrow> box \<Rightarrow> exn + image"
where
  "Image_resize resample im sz bx =
     (case bx of (x0, y0, x1, y1) \<Rightarrow>
        if im_size im = sz \<and> bx = (0, 0, of_int (fst (im_size im)), of_int (snd (im_size im)))
        then Inr im
        else if \<not> c_int (fst sz) \<or> \<not> c_int (snd sz) then Inl OverflowError
        else if fst sz < 1 \<or> snd sz < 1 then Inl ValueError
        else if x0 < 0 \<or> y0 < 0 then Inl ValueError
        else if of_int (fst (im_size im)) < x1 \<or> of_int (snd (im_size im)) < y1
        then Inl ValueError
        else if x1 - x0 < 0 \<or> y1 - y0 < 0 then Inl ValueError
        else if special_mode (mode im) then Inl ValueError
        else Inr \<lparr>mode = mode im, im_size = sz, pixels = resample im bx sz\<rparr>)"


text \<open>
  \<^verbatim>\<open>ImageOps.fit(image, size, method)\<close> with the defaults \<^verbatim>\<open>bleed=0.0\<close> and
  \<^verbatim>\<open>centering=(0.5, 0.5)\<close>: the two aspect ratios are true divisions, which raise
  \<^verbatim>\<open>ZeroDivisionError\<close> on a zero height; then the image is resized from the crop box.
  Pillow computes the crop box from the two sizes in floating point: \<open>crop\<close>, the box it
  arrives at, is a parameter.
\<close>

definition ImageOps_fit ::
  "(int \<times> int \<Rightarrow> int \<times> int \<Rightarrow> box) \<Rightarrow> (image \<Rightarrow> box \<Rightarrow> int \<times> int \<Rightarrow> pixel list)
     \<Rightarrow> image \<Rightarrow> int \<times> int \<Rightarrow> exn + image"
where
  "ImageOps_fit crop resample im sz =
     (if snd (im_size im) = 0 then Inl ZeroDivisionError
      else if snd sz = 0 then Inl ZeroDivisionError
      else Image_resize resample im sz (crop (im_size im) sz))"

text \<open>
  \<^verbatim>\<open>resize_image\<close>; \<open>resample\<close> stands for the filter \<^verbatim>\<open>Image.ANTIALIAS\<close>. The debug log
  line has no effect on the result and is left out.
\<close>

definition resize_image ::
  "(int \<times> int \<Rightarrow> int \<times> int \<Rightarrow> box) \<Rightarrow> (image \<Rightarrow> box \<Rightarrow> int \<times> int \<Rightarrow> pixel list)
     \<Rightarrow> image \<Rightarrow> int \<Rightarrow> int \<Rightarrow> exn + image"
where
  "resize_image crop resample img width height = ImageOps_fit crop resample img (width, height)"

text \<open>
  The formulas of \<^verbatim>\<open>ImageOps.fit\<close> for the crop box, evaluated in exact rational
  arithmetic: a box for the concrete instances below, not the box of the code.
\<close>

definition exact_crop :: "int \<times> int \<Rightarrow> int \<times> int \<Rightarrow> box" where
  "exact_crop isz sz =
     (let live_size = (of_int (fst isz) :: rat, of_int (snd isz) :: rat);
          live_size_ratio = fst live_size / snd live_size;
          output_ratio = of_int (fst sz) / of_int (snd sz);
          crop_width =
            (if live_size_ratio = output_ratio then fst live_size
             else if live_size_ratio \<ge> output_ratio then output_ratio * snd live_size
             else fst live_size);
          crop_height =
            (if live_size_ratio = output_ratio then snd live_size
             else if live_size_ratio \<ge> output_ratio then snd live_size
             else fst live_size / output_ratio);
          crop_left = (fst live_size - crop_width) * (1 / 2);
          crop_top = (snd live_size - crop_height) * (1 / 2)
      in (crop_left, crop_top, crop_left + crop_width, crop_top + crop_height))"

subsection \<open>\<^verbatim>\<open>download_image\<close> (lines 12 to 27)\<close>

text \<open>The records of the \<^verbatim>\<open>logging\<close> module, in the order written.\<close>

datatype level = DEBUG | INFO | ERROR

type_synonym logging = "(level \<times> string) list"

text \<open>
  \<^verbatim>\<open>im.convert('RGB')\<close>: the result has mode "RGB" and the size of \<open>im\<close>. An "RGB"
  image is copied; of an "RGBA" image the three colour bands are kept and the alpha band
  is dropped (no compositing); the pixels of an image of another mode are what PIL's
  conversion of that mode gives, a parameter.
\<close>

definition Image_convert_RGB :: "(image \<Rightarrow> pixel list) \<Rightarrow> image \<Rightarrow> image" where
  "Image_convert_RGB other im =
     \<lparr>mode = ''RGB'', im_size = im_size im,
      pixels = (if mode im = ''RGB'' then pixels im
                else if mode im = ''RGBA'' then map (take 3) (pixels im)
                else other im)\<rparr>"

text \<open>
  Lines 25 to 27: an exception raised in the \<^verbatim>\<open>try\<close> block is caught when it is an
  \<^verbatim>\<open>IOError\<close>: an error is logged and \<^verbatim>\<open>sys.exit(1)\<close> raises \<^verbatim>\<open>SystemExit(1)\<close>. Any
  other exception leaves the function as it is.
\<close>

definition except_IOError :: "logging \<Rightarrow> exn \<Rightarrow> logging \<times> (exn + image)" where
  "except_IOError lg e =
     (if e = IOError then (lg @ [(ERROR, ''Error downloading image!'')], Inl (SystemExit 1))
      else (lg, Inl e))"

text \<open>
  The function returns the log it writes and its outcome. \<open>requests_get\<close> is the outcome of
  \<^verbatim>\<open>requests.get(url, headers=..., stream=True)\<close>, a response or an exception;
  \<open>Image_open\<close> is the outcome of decoding the response (\<^verbatim>\<open>Image.open(r.raw)\<close> and the
  loading of the pixels that \<^verbatim>\<open>convert\<close> triggers), an image or an exception.
\<close>

definition download_image ::
  "(string \<Rightarrow> exn + 'r) \<Rightarrow> ('r \<Rightarrow> exn + image) \<Rightarrow> (image \<Rightarrow> pixel list) \<Rightarrow> string
     \<Rightarrow> logging \<times> (exn + image)"
where
  "download_image requests_get Image_open other url =
     (case requests_get url of
        Inl e \<Rightarrow> except_IOError [] e
      | Inr r \<Rightarrow>
          (let lg = [(INFO, ''Downloading '' @ url)]
           in case Image_open r of
                Inl e \<Rightarrow> except_IOError lg e
              | Inr im \<Rightarrow>
                  (let img = Image_convert_RGB other im
                   in if mode img = ''RGBA'' then
                        (let lg2 = lg @ [(DEBUG, ''Removing alpha layer...'')]
                         in case pure_pil_alpha_to_color_v2 img white of
                              Inl e \<Rightarrow> except_IOError lg2 e
                            | Inr img2 \<Rightarrow> (lg2, Inr img2))
                      else (lg, Inr img))))"

subsection \<open>\<^verbatim>\<open>set_image_title\<close> (lines 48 to 80)\<close>

text \<open>
  The function copies its argument and draws on the copy in place, so images are objects
  in a store: a list of images, an object being its index. \<^verbatim>\<open>img.copy()\<close> allocates a
  new object with the contents of the old one.
\<close>

type_synonym store = "image list"

definition Image_copy :: "store \<Rightarrow> nat \<Rightarrow> store \<times> nat" where
  "Image_copy st a = (st @ [st ! a], length st)"

text \<open>
  A loaded font: \<^verbatim>\<open>font.getsize(text)\<close>, the coverage bitmap that the rasteriser produces
  for a one-line text (\<open>getmask f text mx my\<close> is the coverage at column \<open>mx\<close> and row
  \<open>my\<close> of a bitmap of the measured size of the text), and what PIL's
  \<^verbatim>\<open>multiline_text\<close> paints for a text with a line feed, to which \<^verbatim>\<open>draw.text\<close>
  hands such a text over. The rasteriser is outside the module.
\<close>

record font =
  getsize :: "string \<Rightarrow> int \<times> int"
  getmask :: "string \<Rightarrow> int \<Rightarrow> int \<Rightarrow> 8 word"
  draw_lines :: "image \<Rightarrow> int \<times> int \<Rightarrow> string \<Rightarrow> pixel \<Rightarrow> image"

text \<open>
  The ink of a \<^verbatim>\<open>draw.text\<close> call on an image of mode \<open>m\<close>. Without \<^verbatim>\<open>fill\<close> it is the
  default ink that \<^verbatim>\<open>ImageDraw.Draw\<close> set, \<^verbatim>\<open>draw_ink(-1)\<close>: four bytes 255 on the modes
  of three and four bands (opaque white on "RGB" and "RGBA"); \<open>set_image_title\<close> reaches
  such a call on these modes only, and the default ink of the other modes is not
  modelled. A \<^verbatim>\<open>fill\<close> tuple must fit the bands of the mode: three or four values on a
  mode of three or four bands (a missing alpha is 255), one or two on a mode of two
  bands, one on a mode of one band; otherwise \<open>TypeError\<close>.
\<close>

definition ink_of :: "string \<Rightarrow> pixel option \<Rightarrow> exn + pixel" where
  "ink_of m fill =
     (case fill of
        None \<Rightarrow> Inr [255, 255, 255, 255]
      | Some c \<Rightarrow>
          if 3 \<le> nbands m \<and> length c = 4 then Inr c
          else if 3 \<le> nbands m \<and> length c = 3 then Inr (c @ [255])
          else if nbands m = 2 \<and> (length c = 1 \<or> length c = 2) then Inr c
          else if nbands m = 1 \<and> length c = 1 then Inr c
          else Inl TypeError)"

text \<open>
  The coordinates of \<^verbatim>\<open>draw.text\<close> are cut to integers towards zero and passed to C as
  \<^verbatim>\<open>long\<close>s, 64 bits wide: a coordinate outside that range is an error
  (\<open>SystemError\<close>).
\<close>

definition trunc :: "rat \<Rightarrow> int" where
  "trunc x = (if 0 \<le> x then \<lfloor>x\<rfloor> else \<lceil>x\<rceil>)"

definition in_c_long :: "rat \<Rightarrow> bool" where
  "in_c_long x \<longleftrightarrow> - (2 ^ 63) \<le> trunc x \<and> trunc x < 2 ^ 63"

definition c_coord :: "rat \<times> rat \<Rightarrow> exn + int \<times> int" where
  "c_coord xy =
     (if in_c_long (fst xy) \<and> in_c_long (snd xy) then Inr (trunc (fst xy), trunc (snd xy))
      else Inl SystemError)"

text \<open>
  \<^verbatim>\<open>draw_bitmap(coord, mask, ink)\<close>: the ink is blended into every pixel of the image
  that lies under the bitmap, of size \<open>msize\<close> with its top-left corner at \<open>coord\<close>,
  weighted by the coverage there (the \<open>BLEND\<close> of paste); the other pixels stay. The
  pixel of index \<open>i\<close> is at column \<open>i mod width\<close> and row \<open>i div width\<close>.
\<close>

definition draw_bitmap ::
  "image \<Rightarrow> int \<times> int \<Rightarrow> int \<times> int \<Rightarrow> (int \<Rightarrow> int \<Rightarrow> 8 word) \<Rightarrow> pixel \<Rightarrow> image"
where
  "draw_bitmap im coord msize cov ink =
     im\<lparr>pixels :=
       map (\<lambda>(i, p).
              let mx = int i mod fst (im_size im) - fst coord;
                  my = int i div fst (im_size im) - snd coord
              in if 0 \<le> mx \<and> mx < fst msize \<and> 0 \<le> my \<and> my < snd msize
                 then map2 (BLEND (cov mx my)) p ink else p)
         (zip [0..<length (pixels im)] (pixels im))\<rparr>"

definition render :: "font \<Rightarrow> image \<Rightarrow> int \<times> int \<Rightarrow> string \<Rightarrow> pixel \<Rightarrow> image" where
  "render f im coord text ink =
     (if CHR 0x0A \<in> set text then draw_lines f im coord text ink
      else draw_bitmap im coord (getsize f text) (getmask f text) ink)"

text \<open>
  \<^verbatim>\<open>draw.text(xy, text, font=font, fill=fill)\<close> on the drawing context of the object
  \<open>draw\<close>: the ink is resolved first, then the text is painted on that object in place.
\<close>

definition ImageDraw_text ::
  "store \<Rightarrow> nat \<Rightarrow> font \<Rightarrow> rat \<times> rat \<Rightarrow> string \<Rightarrow> pixel option \<Rightarrow> exn + store"
where
  "ImageDraw_text st draw f xy text fill =
     (case ink_of (mode (st ! draw)) fill of
        Inl e \<Rightarrow> Inl e
      | Inr ink \<Rightarrow>
          (case c_coord xy of
             Inl e \<Rightarrow> Inl e
           | Inr coord \<Rightarrow> Inr (st[draw := render f (st ! draw) coord text ink])))"

text \<open>
  \<open>truetype\<close> is the outcome of loading the font at a size (\<^verbatim>\<open>resource_string\<close> and
  \<^verbatim>\<open>ImageFont.truetype\<close>), a font or an exception. The function has no handler: an
  exception of the font loading or of a \<^verbatim>\<open>draw.text\<close> call leaves it. The function
  returns the new store and the returned object or the exception. The debug log line has
  no effect on the result and is left out.
\<close>

definition set_image_title ::
  "(int \<Rightarrow> exn + font) \<Rightarrow> store \<Rightarrow> nat \<Rightarrow> string \<Rightarrow> string \<Rightarrow> int \<times> int \<Rightarrow> int
     \<Rightarrow> store \<times> (exn + nat)"
where
  "set_image_title truetype st img title gravity padding fontsize =
     (let title1 = remove_tags title;
          gravity1 = normalize_gravity gravity;
          (st1, ret_img) = Image_copy st img;
          draw = ret_img
      in case truetype fontsize of
           Inl e \<Rightarrow> (st1, Inl e)
         | Inr f \<Rightarrow>
             (let text_x = fst (getsize f title1);
                  text_y = snd (getsize f title1);
                  x = title_top_left_x gravity1 (fst padding) (fst (im_size (st1 ! ret_img))) text_x;
                  y = title_top_left_y gravity1 (snd padding) (snd (im_size (st1 ! ret_img))) text_y
              in case ImageDraw_text st1 draw f (x + 2, y + 2) title1 (Some [0, 0, 0, 127]) of
                   Inl e \<Rightarrow> (st1, Inl e)
                 | Inr st2 \<Rightarrow>
                     (case ImageDraw_text st2 draw f (x, y) title1 None of
                        Inl e \<Rightarrow> (st2, Inl e)
                      | Inr st3 \<Rightarrow> (st3, Inr ret_img))))"

text \<open>
  A font for the concrete instances below: every character is 6 wide and 10 high and
  covers its cell fully.
\<close>

definition block_font :: font where
  "block_font =
     \<lparr>getsize = (\<lambda>t. (6 * int (length t), 10)),
      getmask = (\<lambda>t mx my. 255),
      draw_lines = (\<lambda>im coord t ink. im)\<rparr>"

subsection \<open>The pipeline\<close>

text \<open>
  Modelled from the spec: the composition of the stages into one call is not in this
  module (the caller is elsewhere in the repository). By section 4.5 of the specification
  the pipeline invokes the stages one after the other, download (fetch, decode, flatten),
  fit, render; in Python an exception of a stage ends the call. The fitted image becomes
  an object of the store, which the caption renderer is given. The result is the log, the
  store and the final object or the exception.
\<close>

definition compose ::
  "(string \<Rightarrow> exn + 'r) \<Rightarrow> ('r \<Rightarrow> exn + image) \<Rightarrow> (image \<Rightarrow> pixel list)
     \<Rightarrow> (int \<times> int \<Rightarrow> int \<times> int \<Rightarrow> box) \<Rightarrow> (image \<Rightarrow> box \<Rightarrow> int \<times> int \<Rightarrow> pixel list)
     \<Rightarrow> (int \<Rightarrow> exn + font) \<Rightarrow> store \<Rightarrow> string \<Rightarrow> int \<Rightarrow> int \<Rightarrow> string \<Rightarrow> string
     \<Rightarrow> int \<times> int \<Rightarrow> int \<Rightarrow> logging \<times> store \<times> (exn + nat)"
where
  "compose requests_get Image_open other crop resample truetype st url width height
       title gravity padding fontsize =
     (case download_image requests_get Image_open other url of
        (lg, Inl e) \<Rightarrow> (lg, st, Inl e)
      | (lg, Inr img) \<Rightarrow>
          (case resize_image crop resample img width height of
             Inl e \<Rightarrow> (lg, st, Inl e)
           | Inr fitted \<Rightarrow>
               (case set_image_title truetype (st @ [fitted]) (length st)
                       title gravity padding fontsize of
                  (st2, res) \<Rightarrow> (lg, st2, res))))"

section \<open>Theorems\<close>

subsection \<open>Substrings\<close>

lemma contains_iff: "contains sub s \<longleftrightarrow> (\<exists>p q. s = p @ sub @ q)"
proof (induction s)
  case Nil
  then show ?case by auto
next
  case (Cons c cs)
  show ?case
  proof
    assume "contains sub (c # cs)"
    then consider "prefix sub (c # cs)" | "contains sub cs" by auto
    then show "\<exists>p q. c # cs = p @ sub @ q"
    proof cases
      case 1
      then obtain q where "c # cs = sub @ q" by (auto simp: prefix_def)
      then have "c # cs = [] @ sub @ q" by simp
      then show ?thesis by blast
    next
      case 2
      with Cons.IH obtain p q where "cs = p @ sub @ q" by blast
      then have "c # cs = (c # p) @ sub @ q" by simp
      then show ?thesis by blast
    qed
  next
    assume "\<exists>p q. c # cs = p @ sub @ q"
    then obtain p q where pq: "c # cs = p @ sub @ q" by blast
    show "contains sub (c # cs)"
    proof (cases p)
      case Nil
      with pq have "prefix sub (c # cs)" by (simp add: prefix_def)
      then show ?thesis by simp
    next
      case (Cons d p')
      with pq have "cs = p' @ sub @ q" by simp
      with Cons.IH have "contains sub cs" by blast
      then show ?thesis by simp
    qed
  qed
qed

subsection \<open>Gravity placement\<close>

lemma title_top_left_x_anchor:
  "title_top_left_x n px cw gw = spec_place_x (spec_horizontal n) gw cw px"
  by (simp add: title_top_left_x_def spec_horizontal_def)

lemma title_top_left_y_anchor:
  "title_top_left_y n py ch gh = spec_place_y (spec_vertical n) gh ch py"
  by (simp add: title_top_left_y_def spec_vertical_def)

text \<open>
  C1. For every glyph extent, canvas size and padding, the top-left point that the code
  computes is the anchor formula of the branch taken: left gives \<open>px\<close>, right gives
  \<open>cw - gw - px\<close>, the horizontal centre gives \<open>(cw - gw) / 2\<close>; top gives \<open>py\<close>, bottom
  gives \<open>ch - gh - py\<close>, the vertical centre gives \<open>(ch - gh) / 2\<close>. "BOTTOM right" with
  extent (50,20), canvas (200,100) and padding (10,10) gives (140, 70); "center" with
  padding (0,0) gives (75, 40); "banana" is centred on both axes. Nothing is clamped:
  a text wider than the canvas anchored right starts left of the canvas, and a left
  padding beyond the canvas starts right of it.
\<close>

theorem resolve_anchor_formulas:
  "resolve g (gw, gh) (cw, ch) (px, py) =
     (spec_place_x (spec_horizontal (normalize_gravity g)) gw cw px,
      spec_place_y (spec_vertical (normalize_gravity g)) gh ch py)
   \<and> resolve ''BOTTOM right'' (50, 20) (200, 100) (10, 10) = (140, 70)
   \<and> resolve ''center'' (50, 20) (200, 100) (0, 0) = (75, 40)
   \<and> resolve ''banana'' (gw, gh) (cw, ch) (px, py) = (of_int (cw - gw) / 2, of_int (ch - gh) / 2)
   \<and> fst (resolve ''right'' (300, 20) (200, 100) (10, 10)) = - 110
   \<and> snd (resolve ''bottom'' (50, 120) (200, 100) (10, 10)) = - 30
   \<and> fst (resolve ''left'' (50, 20) (200, 100) (500, 10)) = 500"
proof -
  have general: "resolve g (gw, gh) (cw, ch) (px, py) =
     (spec_place_x (spec_horizontal (normalize_gravity g)) gw cw px,
      spec_place_y (spec_vertical (normalize_gravity g)) gh ch py)"
    by (simp add: resolve_def title_top_left_x_anchor title_top_left_y_anchor)
  have n1: "normalize_gravity ''BOTTOM right'' = ''bottomright''" by code_simp
  have n2: "normalize_gravity ''center'' = ''center''" by code_simp
  have n3: "normalize_gravity ''banana'' = ''banana''" by code_simp
  have n4: "normalize_gravity ''right'' = ''right''" by code_simp
  have n5: "normalize_gravity ''bottom'' = ''bottom''" by code_simp
  have n6: "normalize_gravity ''left'' = ''left''" by code_simp
  have e1: "resolve ''BOTTOM right'' (50, 20) (200, 100) (10, 10) = (140, 70)"
    by (simp add: resolve_def n1 title_top_left_x_def title_top_left_y_def)
  have e2: "resolve ''center'' (50, 20) (200, 100) (0, 0) = (75, 40)"
    by (simp add: resolve_def n2 title_top_left_x_def title_top_left_y_def)
  have e3: "resolve ''banana'' (gw, gh) (cw, ch) (px, py) =
      (of_int (cw - gw) / 2, of_int (ch - gh) / 2)"
    by (simp add: resolve_def n3 title_top_left_x_def title_top_left_y_def)
  have e4: "fst (resolve ''right'' (300, 20) (200, 100) (10, 10)) = - 110"
    by (simp add: resolve_def n4 title_top_left_x_def)
  have e5: "snd (resolve ''bottom'' (50, 120) (200, 100) (10, 10)) = - 30"
    by (simp add: resolve_def n5 title_top_left_y_def)
  have e6: "fst (resolve ''left'' (50, 20) (200, 100) (500, 10)) = 500"
    by (simp add: resolve_def n6 title_top_left_x_def)
  from general e1 e2 e3 e4 e5 e6 show ?thesis by blast
qed

subsection \<open>Tag removal\<close>

lemma lazy_dot_close_eq:
  "lazy_dot_close cs =
     (if list_ex is_close cs \<and> CHR 0x0A \<notin> set (takeWhile (\<lambda>d. \<not> is_close d) cs)
      then Some (tl (dropWhile (\<lambda>d. \<not> is_close d) cs)) else None)"
  by (induction cs) auto

lemma sub_tags_eq: "sub_tags s = delete_tags_on_line s"
  by (induction s rule: sub_tags.induct) (simp_all add: lazy_dot_close_eq)

lemma set_tl_subset: "x \<in> set (tl xs) \<Longrightarrow> x \<in> set xs"
  by (cases xs) auto

lemma takeWhile_subset: "set (takeWhile P xs) \<subseteq> set xs"
  by (induction xs) auto

lemma delete_tags_no_newline:
  "CHR 0x0A \<notin> set s \<Longrightarrow> delete_tags_on_line s = spec_delete_tags s"
proof (induction s rule: spec_delete_tags.induct)
  case 1
  then show ?case by simp
next
  case (2 c cs)
  have nl: "CHR 0x0A \<notin> set cs" using "2.prems" by simp
  then have tw: "CHR 0x0A \<notin> set (takeWhile (\<lambda>d. \<not> is_close d) cs)"
    using takeWhile_subset [of "\<lambda>d. \<not> is_close d" cs] by blast
  have dw: "CHR 0x0A \<notin> set (tl (dropWhile (\<lambda>d. \<not> is_close d) cs))"
  proof
    assume "CHR 0x0A \<in> set (tl (dropWhile (\<lambda>d. \<not> is_close d) cs))"
    then have "CHR 0x0A \<in> set (dropWhile (\<lambda>d. \<not> is_close d) cs)"
      by (rule set_tl_subset)
    then have "CHR 0x0A \<in> set cs" by (rule set_dropWhileD)
    with nl show False by simp
  qed
  show ?case
  proof (cases "is_open c \<and> list_ex is_close cs")
    case True
    with "2.IH"(1) dw tw show ?thesis by simp
  next
    case False
    with "2.IH"(2) nl show ?thesis by auto
  qed
qed

lemma sub_tags_no_open: "\<forall>c\<in>set s. \<not> is_open c \<Longrightarrow> sub_tags s = s"
  by (induction s) auto

lemma lazy_dot_close_no_close: "\<forall>c\<in>set s. \<not> is_close c \<Longrightarrow> lazy_dot_close s = None"
  by (induction s) auto

lemma sub_tags_no_close: "\<forall>c\<in>set s. \<not> is_close c \<Longrightarrow> sub_tags s = s"
  by (induction s) (auto simp: lazy_dot_close_no_close)

lemma sub_spaces_Nil: "sub_spaces xs = [] \<longleftrightarrow> xs = []"
  by (cases xs) auto

lemma hd_sub_spaces: "hd (sub_spaces xs) = hd xs"
  by (cases xs) auto

lemma sub_spaces_no_run: "\<not> contains ''  '' (sub_spaces xs)"
proof (induction xs rule: sub_spaces.induct)
  case 1
  show ?case by simp
next
  case (2 c cs)
  show ?case
  proof (cases "c = CHR '' ''")
    case True
    define d where "d = dropWhile (\<lambda>d. d = CHR '' '') cs"
    have ih: "\<not> contains ''  '' (sub_spaces d)"
      using "2.IH"(1) True by (simp add: d_def)
    have "\<not> prefix '' '' (sub_spaces d)"
    proof (cases d)
      case Nil
      then show ?thesis by simp
    next
      case (Cons e es)
      then have "hd d \<noteq> CHR '' ''"
        using hd_dropWhile [of "\<lambda>d. d = CHR '' ''" cs] by (simp add: d_def)
      then have "hd (sub_spaces d) \<noteq> CHR '' ''" by (simp add: hd_sub_spaces)
      then show ?thesis by (cases "sub_spaces d") auto
    qed
    with ih True show ?thesis by (simp add: d_def)
  next
    case False
    with "2.IH"(2) show ?thesis by simp
  qed
qed

lemma strip_middle: "\<exists>p q. s = p @ strip s @ q"
proof -
  define t where "t = dropWhile isspace s"
  have "s = takeWhile isspace s @ t" by (simp add: t_def)
  moreover have "rev t = takeWhile isspace (rev t) @ dropWhile isspace (rev t)" by simp
  then have "rev (rev t) = rev (takeWhile isspace (rev t) @ dropWhile isspace (rev t))"
    by (simp only:)
  then have "t = rev (dropWhile isspace (rev t)) @ rev (takeWhile isspace (rev t))"
    by (simp only: rev_rev_ident rev_append)
  ultimately have "s = takeWhile isspace s @ strip s @ rev (takeWhile isspace (rev t))"
    by (simp add: strip_def t_def)
  then show ?thesis by blast
qed

lemma contains_strip: "contains sub (strip s) \<Longrightarrow> contains sub s"
proof -
  assume "contains sub (strip s)"
  then obtain p q where "strip s = p @ sub @ q" by (auto simp: contains_iff)
  moreover obtain p' q' where "s = p' @ strip s @ q'" using strip_middle by blast
  ultimately have "s = (p' @ p) @ sub @ (q @ q')" by simp
  then show ?thesis unfolding contains_iff by blast
qed

lemma last_dropWhile: "dropWhile P xs \<noteq> [] \<Longrightarrow> last (dropWhile P xs) = last xs"
  by (induction xs) (auto split: if_splits)

lemma strip_ends:
  assumes "strip s \<noteq> []"
  shows "\<not> isspace (hd (strip s)) \<and> \<not> isspace (last (strip s))"
proof -
  define t where "t = dropWhile isspace s"
  define u where "u = dropWhile isspace (rev t)"
  have s: "strip s = rev u" by (simp add: strip_def t_def u_def)
  with assms have u: "u \<noteq> []" by simp
  then have t: "t \<noteq> []" by (auto simp: u_def)
  have "\<not> isspace (hd u)" using u hd_dropWhile [of isspace "rev t"] by (simp add: u_def)
  then have l: "\<not> isspace (last (strip s))" using u by (simp add: s last_rev)
  have "last u = last (rev t)" using u last_dropWhile [of isspace "rev t"] by (simp add: u_def)
  then have "last u = hd t" using t by (simp add: last_rev)
  moreover have "\<not> isspace (hd t)" using t hd_dropWhile [of isspace s] by (simp add: t_def)
  ultimately have "\<not> isspace (hd (strip s))" using u by (simp add: s hd_rev)
  with l show ?thesis by simp
qed

text \<open>
  C4 (as amended). For every input string, tag removal scans from the left and deletes
  each shortest substring that runs from one of the three opening brackets to the next
  of the three closing brackets with no line feed before that closing bracket; an opening
  bracket whose next closing bracket lies behind a line feed (or that has none) is kept,
  and the scan goes on behind it, so a later opening bracket may still match that closing
  bracket. Then runs of spaces are collapsed to one and whitespace is trimmed at both
  ends. On a string without line feed that is the deletion of every shortest bracketed
  substring. A string without an opening bracket, or without a closing bracket, keeps
  its brackets. "My Title [HD] (2020)" becomes "My Title" and
  "<tag>Mixed[x](y)  spacing" becomes "Mixed spacing"; \<open>[a\<close>, line feed, \<open>b(c]d\<close> becomes
  \<open>[a\<close>, line feed, \<open>bd\<close>.
\<close>

theorem remove_tags_on_line:
  "remove_tags s = strip (sub_spaces (delete_tags_on_line s))
   \<and> (CHR 0x0A \<notin> set s \<longrightarrow> remove_tags s = spec_remove_tags s)
   \<and> ((\<forall>c\<in>set s. \<not> is_open c) \<longrightarrow> sub_tags s = s)
   \<and> ((\<forall>c\<in>set s. \<not> is_close c) \<longrightarrow> sub_tags s = s)
   \<and> \<not> contains ''  '' (remove_tags s)
   \<and> (remove_tags s \<noteq> [] \<longrightarrow>
        \<not> isspace (hd (remove_tags s)) \<and> \<not> isspace (last (remove_tags s)))
   \<and> remove_tags ''My Title [HD] (2020)'' = ''My Title''
   \<and> remove_tags ''<tag>Mixed[x](y)  spacing'' = ''Mixed spacing''
   \<and> remove_tags [CHR ''['', CHR ''a'', CHR 0x0A, CHR ''b'', CHR ''('', CHR ''c'', CHR '']'', CHR ''d'']
       = [CHR ''['', CHR ''a'', CHR 0x0A, CHR ''b'', CHR ''d'']"
proof -
  have a: "remove_tags s = strip (sub_spaces (delete_tags_on_line s))"
    by (simp add: remove_tags_def sub_tags_eq)
  have b: "CHR 0x0A \<notin> set s \<longrightarrow> remove_tags s = spec_remove_tags s"
    by (simp add: remove_tags_def spec_remove_tags_def sub_tags_eq delete_tags_no_newline)
  have c: "(\<forall>c\<in>set s. \<not> is_open c) \<longrightarrow> sub_tags s = s"
    using sub_tags_no_open by blast
  have d: "(\<forall>c\<in>set s. \<not> is_close c) \<longrightarrow> sub_tags s = s"
    using sub_tags_no_close by blast
  have e: "\<not> contains ''  '' (remove_tags s)"
    unfolding remove_tags_def using contains_strip sub_spaces_no_run by blast
  have f: "remove_tags s \<noteq> [] \<longrightarrow>
      \<not> isspace (hd (remove_tags s)) \<and> \<not> isspace (last (remove_tags s))"
    unfolding remove_tags_def using strip_ends by blast
  have g: "remove_tags ''My Title [HD] (2020)'' = ''My Title''" by code_simp
  have h: "remove_tags ''<tag>Mixed[x](y)  spacing'' = ''Mixed spacing''" by code_simp
  have i: "remove_tags
      [CHR ''['', CHR ''a'', CHR 0x0A, CHR ''b'', CHR ''('', CHR ''c'', CHR '']'', CHR ''d'']
       = [CHR ''['', CHR ''a'', CHR 0x0A, CHR ''b'', CHR ''d'']" by code_simp
  from a b c d e f g h i show ?thesis by blast
qed

theorem remove_tags_on_line_witness:
  "remove_tags ''A (b) [c'' = spec_remove_tags ''A (b) [c''
   \<and> remove_tags ''A (b) [c'' = ''A [c''
   \<and> sub_tags ''a ] b'' = ''a ] b''
   \<and> sub_tags ''a [ b'' = ''a [ b''
   \<and> \<not> isspace (hd (remove_tags ''A (b) [c''))"
proof -
  have h1: "CHR 0x0A \<notin> set ''A (b) [c''" by simp
  have h2: "\<forall>c\<in>set ''a ] b''. \<not> is_open c" by (simp add: is_open_def)
  have h3: "\<forall>c\<in>set ''a [ b''. \<not> is_close c" by (simp add: is_close_def)
  have v: "remove_tags ''A (b) [c'' = ''A [c''" by code_simp
  then have h4: "remove_tags ''A (b) [c'' \<noteq> []" by simp
  from h1 h4 remove_tags_on_line [of "''A (b) [c''"]
  have "remove_tags ''A (b) [c'' = spec_remove_tags ''A (b) [c''"
    and "\<not> isspace (hd (remove_tags ''A (b) [c''))" by blast+
  moreover from h2 remove_tags_on_line [of "''a ] b''"] have "sub_tags ''a ] b'' = ''a ] b''"
    by blast
  moreover from h3 remove_tags_on_line [of "''a [ b''"] have "sub_tags ''a [ b'' = ''a [ b''"
    by blast
  ultimately show ?thesis using v by blast
qed

text \<open>
  C4 as stated fails where a line feed lies between the brackets: the code keeps
  \<open>[b\<close>, line feed, \<open>c]\<close>, and deleting every shortest bracketed substring would give "a d".
\<close>

theorem remove_tags_line_feed_counterexample:
  "remove_tags (''a [b'' @ [CHR 0x0A] @ ''c] d'') = ''a [b'' @ [CHR 0x0A] @ ''c] d''
   \<and> spec_remove_tags (''a [b'' @ [CHR 0x0A] @ ''c] d'') = ''a d''"
proof -
  have "remove_tags (''a [b'' @ [CHR 0x0A] @ ''c] d'') = ''a [b'' @ [CHR 0x0A] @ ''c] d''"
    by code_simp
  moreover have "spec_remove_tags (''a [b'' @ [CHR 0x0A] @ ''c] d'') = ''a d''"
    by code_simp
  ultimately show ?thesis by blast
qed

subsection \<open>Gravity normalisation\<close>

lemma of_char_lower_char:
  "(of_char (lower_char c) :: nat) =
     (let n = of_char c
      in if (65 \<le> n \<and> n \<le> 90) \<or> (192 \<le> n \<and> n \<le> 222 \<and> n \<noteq> 215) then n + 32 else n)"
  by (auto simp: lower_char_def Let_def)

lemma isspace_lower_char: "isspace (lower_char c) = isspace c"
  unfolding isspace_def of_char_lower_char Let_def by auto

lemma of_char_space: "(of_char c :: nat) = 32 \<longleftrightarrow> c = CHR '' ''"
proof -
  have "(of_char (CHR '' '') :: nat) = 32" by simp
  then have "(of_char c :: nat) = 32 \<longleftrightarrow> (of_char c :: nat) = of_char (CHR '' '')"
    by (simp only:)
  then show ?thesis by (simp only: of_char_eq_iff)
qed

lemma lower_char_space: "lower_char c = CHR '' '' \<longleftrightarrow> c = CHR '' ''"
proof -
  have "(of_char (lower_char c) :: nat) = 32 \<longleftrightarrow> (of_char c :: nat) = 32"
    unfolding of_char_lower_char Let_def by presburger
  then show ?thesis by (simp only: of_char_space)
qed

lemma isspace_space: "isspace (CHR '' '')"
  by (simp add: isspace_def)

lemma dropWhile_none: "\<forall>x\<in>set xs. \<not> P x \<Longrightarrow> dropWhile P xs = xs"
  by (cases xs) auto

lemma strip_no_space: "\<forall>c\<in>set s. \<not> isspace c \<Longrightarrow> strip s = s"
  by (simp add: strip_def dropWhile_none)


lemma normalize_gravity_spec:
  assumes "\<forall>c\<in>set g. isspace c \<longrightarrow> c = CHR '' ''"
  shows "normalize_gravity g = spec_normalize g"
proof -
  have *: "(c \<noteq> CHR '' '') = (\<not> isspace c)" if "c \<in> set (lower g)" for c
  proof -
    from that obtain d where d: "d \<in> set g" "c = lower_char d"
      by (auto simp: lower_def)
    show ?thesis
    proof (cases "d = CHR '' ''")
      case True
      then have "c = CHR '' ''" using d(2) lower_char_space [of d] by simp
      then show ?thesis using isspace_space by simp
    next
      case False
      then have "c \<noteq> CHR '' ''" using d(2) lower_char_space [of d] by simp
      moreover have "\<not> isspace d" using assms d(1) False by blast
      then have "\<not> isspace c" using d(2) isspace_lower_char [of d] by simp
      ultimately show ?thesis by simp
    qed
  qed
  have "filter (\<lambda>c. c \<noteq> CHR '' '') (lower g) = filter (\<lambda>c. \<not> isspace c) (lower g)"
    by (rule filter_cong [OF refl]) (rule *)
  moreover have "strip (filter (\<lambda>c. \<not> isspace c) (lower g)) = filter (\<lambda>c. \<not> isspace c) (lower g)"
    by (rule strip_no_space) simp
  ultimately show ?thesis
    by (simp only: normalize_gravity_def replace_char_def spec_normalize_def)
qed

lemma set_strip_subset: "x \<in> set (strip s) \<Longrightarrow> x \<in> set s"
proof -
  assume "x \<in> set (strip s)"
  then have "x \<in> set (dropWhile isspace (rev (dropWhile isspace s)))"
    by (simp add: strip_def)
  then have "x \<in> set (rev (dropWhile isspace s))" by (rule set_dropWhileD)
  then have "x \<in> set (dropWhile isspace s)" by simp
  then show "x \<in> set s" by (rule set_dropWhileD)
qed

lemma normalize_gravity_no_space: "CHR '' '' \<notin> set (normalize_gravity g)"
proof
  assume "CHR '' '' \<in> set (normalize_gravity g)"
  then have "CHR '' '' \<in> set (replace_char CHR '' '' (lower g))"
    unfolding normalize_gravity_def by (rule set_strip_subset)
  then show False by (simp add: replace_char_def)
qed

lemma lower_char_not_upper:
  "\<not> (65 \<le> (of_char (lower_char c) :: nat) \<and> (of_char (lower_char c) :: nat) \<le> 90)"
  unfolding of_char_lower_char Let_def by presburger

lemma normalize_gravity_lowercase:
  assumes "c \<in> set (normalize_gravity g)"
  shows "\<not> (65 \<le> (of_char c :: nat) \<and> (of_char c :: nat) \<le> 90)"
proof -
  from assms have "c \<in> set (replace_char CHR '' '' (lower g))"
    unfolding normalize_gravity_def by (rule set_strip_subset)
  then obtain d where "c = lower_char d" by (auto simp: replace_char_def lower_def)
  then show ?thesis using lower_char_not_upper [of d] by simp
qed

lemma lower_char_isspace: "isspace w \<Longrightarrow> lower_char w = w"
proof -
  assume "isspace w"
  then have "(of_char (lower_char w) :: nat) = of_char w"
    unfolding of_char_lower_char Let_def isspace_def by auto
  then show ?thesis by (simp only: of_char_eq_iff)
qed

lemma dropWhile_hd: "xs \<noteq> [] \<Longrightarrow> \<not> P (hd xs) \<Longrightarrow> dropWhile P xs = xs"
  by (cases xs) auto

lemma normalize_gravity_keeps_inner:
  assumes "u \<noteq> []" and "v \<noteq> []"
    and "\<forall>c\<in>set u. \<not> isspace c" and "\<forall>c\<in>set v. \<not> isspace c"
    and "isspace w" and "w \<noteq> CHR '' ''"
  shows "normalize_gravity (u @ [w] @ v) = lower u @ [w] @ lower v"
proof -
  define t where "t = lower u @ [w] @ lower v"
  have lu: "\<forall>c\<in>set (lower u). \<not> isspace c"
    using assms(3) by (auto simp: lower_def isspace_lower_char)
  have lv: "\<forall>c\<in>set (lower v). \<not> isspace c"
    using assms(4) by (auto simp: lower_def isspace_lower_char)
  have l: "lower (u @ [w] @ v) = t"
    using assms(5) by (simp add: t_def lower_def lower_char_isspace)
  have "\<forall>c\<in>set t. c \<noteq> CHR '' ''"
    using lu lv assms(6) isspace_space by (auto simp: t_def)
  then have f: "replace_char CHR '' '' t = t"
    by (simp add: replace_char_def)
  have nu: "lower u \<noteq> []" and nv: "lower v \<noteq> []"
    using assms(1,2) by (simp_all add: lower_def)
  have "hd t = hd (lower u)" using nu by (simp add: t_def)
  then have "\<not> isspace (hd t)" using lu nu by simp
  then have d1: "dropWhile isspace t = t" using nu by (intro dropWhile_hd) (simp_all add: t_def)
  have "hd (rev t) = last (lower v)" using nv by (simp add: t_def hd_rev)
  then have "\<not> isspace (hd (rev t))" using lv nv by simp
  then have d2: "dropWhile isspace (rev t) = rev t"
    using nu by (intro dropWhile_hd) (simp_all add: t_def)
  show ?thesis
    unfolding normalize_gravity_def l f strip_def d1 d2 by (simp add: t_def)
qed

text \<open>
  C5 (as amended). For every gravity string, the parser first normalises it: lowercase,
  then every space character removed, then whitespace stripped from the two ends only.
  Whitespace other than the space that stands inside the string is kept: for \<open>u\<close> and
  \<open>v\<close> not empty and free of whitespace and \<open>w\<close> a whitespace character other than the
  space, \<open>u\<close>, \<open>w\<close>, \<open>v\<close> normalises to lowercase \<open>u\<close>, \<open>w\<close>, lowercase \<open>v\<close>. The result
  has no space, no capital A to Z and no whitespace at either end; where the string's
  only whitespace is the space, it is the string with all whitespace removed. Then the
  parser picks the horizontal anchor by substring membership, "left" before "right"
  (the first match wins, neither gives the centre), and independently the vertical
  anchor, "top" before "bottom" (neither gives the centre).
\<close>

theorem gravity_parse:
  "CHR '' '' \<notin> set (normalize_gravity g)
   \<and> (\<forall>c\<in>set (normalize_gravity g). \<not> (65 \<le> (of_char c :: nat) \<and> (of_char c :: nat) \<le> 90))
   \<and> (normalize_gravity g \<noteq> [] \<longrightarrow>
        \<not> isspace (hd (normalize_gravity g)) \<and> \<not> isspace (last (normalize_gravity g)))
   \<and> ((\<forall>c\<in>set g. isspace c \<longrightarrow> c = CHR '' '') \<longrightarrow> normalize_gravity g = spec_normalize g)
   \<and> (contains ''left'' (normalize_gravity g) \<longrightarrow>
        fst (resolve g (gw, gh) (cw, ch) (px, py)) = of_int px)
   \<and> (\<not> contains ''left'' (normalize_gravity g) \<and> contains ''right'' (normalize_gravity g) \<longrightarrow>
        fst (resolve g (gw, gh) (cw, ch) (px, py)) = of_int (cw - gw - px))
   \<and> (\<not> contains ''left'' (normalize_gravity g) \<and> \<not> contains ''right'' (normalize_gravity g) \<longrightarrow>
        fst (resolve g (gw, gh) (cw, ch) (px, py)) = of_int (cw - gw) / 2)
   \<and> (contains ''top'' (normalize_gravity g) \<longrightarrow>
        snd (resolve g (gw, gh) (cw, ch) (px, py)) = of_int py)
   \<and> (\<not> contains ''top'' (normalize_gravity g) \<and> contains ''bottom'' (normalize_gravity g) \<longrightarrow>
        snd (resolve g (gw, gh) (cw, ch) (px, py)) = of_int (ch - gh - py))
   \<and> (\<not> contains ''top'' (normalize_gravity g) \<and> \<not> contains ''bottom'' (normalize_gravity g) \<longrightarrow>
        snd (resolve g (gw, gh) (cw, ch) (px, py)) = of_int (ch - gh) / 2)
   \<and> normalize_gravity g =
        rev (dropWhile isspace (rev (dropWhile isspace
          (filter (\<lambda>c. c \<noteq> CHR '' '') (map lower_char g)))))
   \<and> (u \<noteq> [] \<and> v \<noteq> [] \<and> (\<forall>c\<in>set u. \<not> isspace c) \<and> (\<forall>c\<in>set v. \<not> isspace c)
        \<and> isspace w \<and> w \<noteq> CHR '' '' \<longrightarrow>
        normalize_gravity (u @ [w] @ v) = lower u @ [w] @ lower v)"
proof -
  have a: "CHR '' '' \<notin> set (normalize_gravity g)" by (rule normalize_gravity_no_space)
  have b: "\<forall>c\<in>set (normalize_gravity g). \<not> (65 \<le> (of_char c :: nat) \<and> (of_char c :: nat) \<le> 90)"
    using normalize_gravity_lowercase by blast
  have c: "normalize_gravity g \<noteq> [] \<longrightarrow>
      \<not> isspace (hd (normalize_gravity g)) \<and> \<not> isspace (last (normalize_gravity g))"
    unfolding normalize_gravity_def using strip_ends by blast
  have d: "(\<forall>c\<in>set g. isspace c \<longrightarrow> c = CHR '' '') \<longrightarrow> normalize_gravity g = spec_normalize g"
    using normalize_gravity_spec by blast
  have x: "fst (resolve g (gw, gh) (cw, ch) (px, py)) =
      title_top_left_x (normalize_gravity g) px cw gw"
    by (simp add: resolve_def)
  have y: "snd (resolve g (gw, gh) (cw, ch) (px, py)) =
      title_top_left_y (normalize_gravity g) py ch gh"
    by (simp add: resolve_def)
  have e: "(contains ''left'' (normalize_gravity g) \<longrightarrow>
        fst (resolve g (gw, gh) (cw, ch) (px, py)) = of_int px)
   \<and> (\<not> contains ''left'' (normalize_gravity g) \<and> contains ''right'' (normalize_gravity g) \<longrightarrow>
        fst (resolve g (gw, gh) (cw, ch) (px, py)) = of_int (cw - gw - px))
   \<and> (\<not> contains ''left'' (normalize_gravity g) \<and> \<not> contains ''right'' (normalize_gravity g) \<longrightarrow>
        fst (resolve g (gw, gh) (cw, ch) (px, py)) = of_int (cw - gw) / 2)"
    unfolding x title_top_left_x_def by simp
  have f: "(contains ''top'' (normalize_gravity g) \<longrightarrow>
        snd (resolve g (gw, gh) (cw, ch) (px, py)) = of_int py)
   \<and> (\<not> contains ''top'' (normalize_gravity g) \<and> contains ''bottom'' (normalize_gravity g) \<longrightarrow>
        snd (resolve g (gw, gh) (cw, ch) (px, py)) = of_int (ch - gh - py))
   \<and> (\<not> contains ''top'' (normalize_gravity g) \<and> \<not> contains ''bottom'' (normalize_gravity g) \<longrightarrow>
        snd (resolve g (gw, gh) (cw, ch) (px, py)) = of_int (ch - gh) / 2)"
    unfolding y title_top_left_y_def by simp
  have i: "normalize_gravity g =
        rev (dropWhile isspace (rev (dropWhile isspace
          (filter (\<lambda>c. c \<noteq> CHR '' '') (map lower_char g)))))"
    by (simp add: normalize_gravity_def strip_def replace_char_def lower_def)
  have k: "u \<noteq> [] \<and> v \<noteq> [] \<and> (\<forall>c\<in>set u. \<not> isspace c) \<and> (\<forall>c\<in>set v. \<not> isspace c)
        \<and> isspace w \<and> w \<noteq> CHR '' '' \<longrightarrow>
        normalize_gravity (u @ [w] @ v) = lower u @ [w] @ lower v"
    using normalize_gravity_keeps_inner by blast
  from a b c d e f i k show ?thesis by blast
qed

theorem gravity_parse_witness:
  "normalize_gravity ''Top  LEFT right'' = spec_normalize ''Top  LEFT right''
   \<and> \<not> isspace (hd (normalize_gravity ''Top  LEFT right''))
   \<and> resolve ''Top  LEFT right'' (50, 20) (200, 100) (10, 10) = (10, 10)
   \<and> resolve ''BOTTOM right'' (50, 20) (200, 100) (10, 10) = (140, 70)
   \<and> resolve ''banana'' (50, 20) (200, 100) (10, 10) = (75, 40)
   \<and> normalize_gravity (''Le'' @ [CHR 0x09] @ ''FT'') = lower ''Le'' @ [CHR 0x09] @ lower ''FT''"
proof -
  have n1: "normalize_gravity ''Top  LEFT right'' = ''topleftright''" by code_simp
  have n2: "normalize_gravity ''BOTTOM right'' = ''bottomright''" by code_simp
  have n3: "normalize_gravity ''banana'' = ''banana''" by code_simp
  have h0: "\<forall>c\<in>set ''Top  LEFT right''. isspace c \<longrightarrow> c = CHR '' ''"
    by (simp add: isspace_def)
  have h1: "normalize_gravity ''Top  LEFT right'' \<noteq> []" by (simp add: n1)
  have h2: "contains ''left'' (normalize_gravity ''Top  LEFT right'')" by (simp add: n1)
  have h3: "contains ''top'' (normalize_gravity ''Top  LEFT right'')" by (simp add: n1)
  have h4: "\<not> contains ''left'' (normalize_gravity ''BOTTOM right'')
      \<and> contains ''right'' (normalize_gravity ''BOTTOM right'')" by (simp add: n2)
  have h5: "\<not> contains ''top'' (normalize_gravity ''BOTTOM right'')
      \<and> contains ''bottom'' (normalize_gravity ''BOTTOM right'')" by (simp add: n2)
  have h6: "\<not> contains ''left'' (normalize_gravity ''banana'')
      \<and> \<not> contains ''right'' (normalize_gravity ''banana'')" by (simp add: n3)
  have h7: "\<not> contains ''top'' (normalize_gravity ''banana'')
      \<and> \<not> contains ''bottom'' (normalize_gravity ''banana'')" by (simp add: n3)
  note t1 = gravity_parse [of "''Top  LEFT right''" 50 20 200 100 10 10]
  note t2 = gravity_parse [of "''BOTTOM right''" 50 20 200 100 10 10]
  note t3 = gravity_parse [of "''banana''" 50 20 200 100 10 10]
  have a: "normalize_gravity ''Top  LEFT right'' = spec_normalize ''Top  LEFT right''"
    using t1 h0 by blast
  have b: "\<not> isspace (hd (normalize_gravity ''Top  LEFT right''))"
    using t1 h1 by blast
  have "fst (resolve ''Top  LEFT right'' (50, 20) (200, 100) (10, 10)) = 10"
    and "snd (resolve ''Top  LEFT right'' (50, 20) (200, 100) (10, 10)) = 10"
    using t1 h2 h3 by simp_all
  then have c: "resolve ''Top  LEFT right'' (50, 20) (200, 100) (10, 10) = (10, 10)"
    by (simp add: prod_eq_iff)
  have "fst (resolve ''BOTTOM right'' (50, 20) (200, 100) (10, 10)) = 140"
    and "snd (resolve ''BOTTOM right'' (50, 20) (200, 100) (10, 10)) = 70"
    using t2 h4 h5 by simp_all
  then have d: "resolve ''BOTTOM right'' (50, 20) (200, 100) (10, 10) = (140, 70)"
    by (simp add: prod_eq_iff)
  have "fst (resolve ''banana'' (50, 20) (200, 100) (10, 10)) = 75"
    and "snd (resolve ''banana'' (50, 20) (200, 100) (10, 10)) = 40"
    using t3 h6 h7 by simp_all
  then have e: "resolve ''banana'' (50, 20) (200, 100) (10, 10) = (75, 40)"
    by (simp add: prod_eq_iff)
  have h8: "''Le'' \<noteq> [] \<and> ''FT'' \<noteq> [] \<and> (\<forall>c\<in>set ''Le''. \<not> isspace c)
      \<and> (\<forall>c\<in>set ''FT''. \<not> isspace c) \<and> isspace (CHR 0x09) \<and> CHR 0x09 \<noteq> CHR '' ''"
    by (simp add: isspace_def)
  have f: "normalize_gravity (''Le'' @ [CHR 0x09] @ ''FT'') =
      lower ''Le'' @ [CHR 0x09] @ lower ''FT''"
    using gravity_parse [where u = "''Le''" and v = "''FT''" and w = "CHR 0x09"] h8
    by blast
  from a b c d e f show ?thesis by blast
qed

text \<open>
  C5 as stated fails on whitespace other than the space inside the string: with a tab
  between "le" and "ft", removing all whitespace gives "left" and the left anchor, where
  the code keeps the tab, finds no keyword and centres the text.
\<close>

theorem gravity_tab_counterexample:
  "spec_horizontal (spec_normalize [CHR ''l'', CHR ''e'', CHR 0x09, CHR ''f'', CHR ''t'']) = Left
   \<and> spec_horizontal (normalize_gravity [CHR ''l'', CHR ''e'', CHR 0x09, CHR ''f'', CHR ''t'']) = HCenter
   \<and> fst (resolve [CHR ''l'', CHR ''e'', CHR 0x09, CHR ''f'', CHR ''t''] (50, 20) (200, 100) (10, 10)) = 75"
proof -
  have s: "spec_normalize [CHR ''l'', CHR ''e'', CHR 0x09, CHR ''f'', CHR ''t''] = ''left''" by code_simp
  have n: "normalize_gravity [CHR ''l'', CHR ''e'', CHR 0x09, CHR ''f'', CHR ''t''] = [CHR ''l'', CHR ''e'', CHR 0x09, CHR ''f'', CHR ''t'']"
    by code_simp
  have a: "spec_horizontal (spec_normalize [CHR ''l'', CHR ''e'', CHR 0x09, CHR ''f'', CHR ''t'']) = Left"
    by (simp add: s spec_horizontal_def)
  have b: "spec_horizontal (normalize_gravity [CHR ''l'', CHR ''e'', CHR 0x09, CHR ''f'', CHR ''t'']) = HCenter"
    by (simp add: n spec_horizontal_def)
  have c: "fst (resolve [CHR ''l'', CHR ''e'', CHR 0x09, CHR ''f'', CHR ''t''] (50, 20) (200, 100) (10, 10)) = 75"
    by (simp add: resolve_def n title_top_left_x_def)
  from a b c show ?thesis by blast
qed

subsection \<open>Alpha flattening\<close>

lemma div_bounds: "0 < (b::nat) \<Longrightarrow> b * (n div b) \<le> n \<and> n < b * (n div b) + b"
  by (metis add.commute dividend_less_times_div mult.commute div_times_less_eq_dividend)

lemma DIV255_round:
  assumes "x \<le> 65025"
  shows "DIV255 x = (2 * x + 255) div 510"
proof -
  define a where "a = (x + 128) div 256"
  define r where "r = (a + (x + 128)) div 256"
  define k where "k = (2 * x + 255) div 510"
  have a: "256 * a \<le> x + 128" "x + 128 < 256 * a + 256"
    using div_bounds [of 256 "x + 128"] by (simp_all add: a_def)
  have r: "256 * r \<le> a + (x + 128)" "a + (x + 128) < 256 * r + 256"
    using div_bounds [of 256 "a + (x + 128)"] by (simp_all add: r_def)
  have k: "510 * k \<le> 2 * x + 255" "2 * x + 255 < 510 * k + 510"
    using div_bounds [of 510 "2 * x + 255"] by (simp_all add: k_def)
  have "r = k"
  proof (cases "a + (x + 128 - 256 * a) \<ge> 256")
    case True
    then have "r = a + 1" using a r assms by linarith
    moreover have "k = a + 1" using True a k assms by linarith
    ultimately show ?thesis by simp
  next
    case False
    then have "r = a" using a r assms by linarith
    moreover have "k = a" using False a k assms by linarith
    ultimately show ?thesis by simp
  qed
  then show ?thesis by (simp add: DIV255_def Let_def r_def a_def k_def)
qed

lemma byte_le: "unat (w :: 8 word) \<le> 255"
  using unsigned_less [of w, where ?'a = nat] by simp

lemma blend_sum_le:
  "unat (b :: 8 word) * (255 - unat (m :: 8 word)) + unat (s :: 8 word) * unat m \<le> 65025"
proof -
  have "unat b * (255 - unat m) \<le> 255 * (255 - unat m)"
    using byte_le [of b] by (rule mult_le_mono1)
  moreover have "unat s * unat m \<le> 255 * unat m"
    using byte_le [of s] by (rule mult_le_mono1)
  moreover have "255 * (255 - unat m) + 255 * unat m = 65025"
    using byte_le [of m] by simp
  ultimately show ?thesis by linarith
qed

lemma unat_BLEND:
  "unat (BLEND m b s) = (2 * (unat b * (255 - unat m) + unat s * unat m) + 255) div 510"
proof -
  let ?x = "unat b * (255 - unat m) + unat s * unat m"
  have x: "?x \<le> 65025" by (rule blend_sum_le)
  then have "(2 * ?x + 255) div 510 < 256" by simp
  then have "unat (of_nat ((2 * ?x + 255) div 510) :: 8 word) = (2 * ?x + 255) div 510"
    by (simp add: unat_of_nat)
  then show ?thesis by (simp add: BLEND_def DIV255_round [OF x])
qed

lemma BLEND_0: "BLEND 0 b s = b"
proof -
  have "unat (BLEND 0 b s) = unat b" by (simp add: unat_BLEND)
  then show ?thesis by (simp only: word_unat_eq_iff [symmetric]) 
qed

lemma BLEND_255: "BLEND 255 b s = s"
proof -
  have "unat (BLEND 255 b s) = unat s" by (simp add: unat_BLEND)
  then show ?thesis by (simp only: word_unat_eq_iff [symmetric]) 
qed

lemma BLEND_round:
  "int (unat (BLEND m b s)) =
     round (real (unat b) * (1 - real (unat m) / 255) + real (unat s) * (real (unat m) / 255))"
proof -
  let ?x = "unat b * (255 - unat m) + unat s * unat m"
  have m: "unat m \<le> 255" by (rule byte_le)
  have "real (unat b) * (1 - real (unat m) / 255) + real (unat s) * (real (unat m) / 255)
      = real ?x / 255"
    using m by (simp add: field_simps)
  also have "round (real ?x / 255) = \<lfloor>real (2 * ?x + 255) / real 510\<rfloor>"
    unfolding round_def by (rule arg_cong [where f = floor]) (simp add: field_simps)
  also have "\<dots> = int ((2 * ?x + 255) div 510)"
    by (rule floor_divide_of_nat_eq)
  finally show ?thesis by (simp add: unat_BLEND)
qed

lemma map_zip_replicate:
  "map h (zip (replicate (length xs) c) (zip xs (map f xs))) = map (\<lambda>p. h (c, p, f p)) xs"
  by (induction xs) auto

lemma list_of_length_4: "length p = 4 \<Longrightarrow> \<exists>a b c d. p = [a, b, c, d]"
  by (auto simp: length_Suc_conv eval_nat_numeral)

lemma list_of_length_3: "length p = 3 \<Longrightarrow> \<exists>a b c. p = [a, b, c]"
  by (auto simp: length_Suc_conv eval_nat_numeral)

lemma flatten_result:
  assumes "mode img = ''RGBA''" and "wf_image img"
  shows "pure_pil_alpha_to_color_v2 img color =
     Inr \<lparr>mode = ''RGB'', im_size = im_size img,
          pixels = map (\<lambda>p. map2 (BLEND (p ! 3)) color p) (pixels img)\<rparr>"
proof -
  have n: "nbands (mode img) = 4" using assms(1) by (simp add: nbands_def)
  have len: "nat (fst (im_size img) * snd (im_size img)) = length (pixels img)"
    using assms(2) by (simp add: wf_image_def)
  have alpha: "index (Image_split img) 3 =
      Inr \<lparr>mode = ''L'', im_size = im_size img, pixels = map (\<lambda>p. [p ! 3]) (pixels img)\<rparr>"
    by (simp add: index_def Image_split_def n)
  show ?thesis
    unfolding pure_pil_alpha_to_color_v2_def Let_def alpha
    by (simp add: Image_paste_def Image_new_def len map_zip_replicate)
qed

lemma flatten_pixel:
  assumes "length p = 4" and "length color = 3"
  shows "length (map2 (BLEND (p ! 3)) color p) = 3
    \<and> (p ! 3 = 0 \<longrightarrow> map2 (BLEND (p ! 3)) color p = color)
    \<and> (p ! 3 = 255 \<longrightarrow> map2 (BLEND (p ! 3)) color p = take 3 p)
    \<and> (\<forall>c<3. map2 (BLEND (p ! 3)) color p ! c = BLEND (p ! 3) (color ! c) (p ! c))"
proof -
  from assms(1) obtain r g b a where p: "p = [r, g, b, a]"
    using list_of_length_4 by blast
  from assms(2) obtain cr cg cb where c: "color = [cr, cg, cb]"
    using list_of_length_3 by blast
  have "\<forall>c<3. map2 (BLEND (p ! 3)) color p ! c = BLEND (p ! 3) (color ! c) (p ! c)"
  proof (intro allI impI)
    fix k :: nat
    assume "k < 3"
    then consider "k = 0" | "k = 1" | "k = 2" by linarith
    then show "map2 (BLEND (p ! 3)) color p ! k = BLEND (p ! 3) (color ! k) (p ! k)"
      by cases (simp_all add: p c)
  qed
  then show ?thesis by (simp add: p c BLEND_0 BLEND_255)
qed

text \<open>
  C2. For every well-formed RGBA image and every three-band background colour, the alpha
  flattener returns an RGB image of the same width and height. At each pixel and band the
  output is the blend
  \<open>round (background * (1 - a / 255) + source * (a / 255))\<close> of the background and the
  source under the pixel's alpha \<open>a\<close>; where \<open>a\<close> is 0 the pixel is exactly the background
  colour, and where \<open>a\<close> is 255 it is exactly the source's RGB. The default background
  is opaque white.
\<close>

theorem alpha_flatten:
  assumes "mode img = ''RGBA''" and "wf_image img" and "length color = 3"
  shows "\<exists>out. pure_pil_alpha_to_color_v2 img color = Inr out
     \<and> mode out = ''RGB'' \<and> im_size out = im_size img
     \<and> length (pixels out) = length (pixels img)
     \<and> (\<forall>i<length (pixels img).
           length (pixels out ! i) = 3
         \<and> (pixels img ! i ! 3 = 0 \<longrightarrow> pixels out ! i = color)
         \<and> (pixels img ! i ! 3 = 255 \<longrightarrow> pixels out ! i = take 3 (pixels img ! i))
         \<and> (\<forall>c<3. int (unat (pixels out ! i ! c)) =
               round (real (unat (color ! c)) * (1 - real (unat (pixels img ! i ! 3)) / 255)
                 + real (unat (pixels img ! i ! c)) * (real (unat (pixels img ! i ! 3)) / 255))))"
proof -
  define out where "out = \<lparr>mode = ''RGB'', im_size = im_size img,
      pixels = map (\<lambda>p. map2 (BLEND (p ! 3)) color p) (pixels img)\<rparr>"
  have r: "pure_pil_alpha_to_color_v2 img color = Inr out"
    unfolding out_def using assms(1,2) by (rule flatten_result)
  have px: "length (pixels out ! i) = 3
         \<and> (pixels img ! i ! 3 = 0 \<longrightarrow> pixels out ! i = color)
         \<and> (pixels img ! i ! 3 = 255 \<longrightarrow> pixels out ! i = take 3 (pixels img ! i))
         \<and> (\<forall>c<3. int (unat (pixels out ! i ! c)) =
               round (real (unat (color ! c)) * (1 - real (unat (pixels img ! i ! 3)) / 255)
                 + real (unat (pixels img ! i ! c)) * (real (unat (pixels img ! i ! 3)) / 255)))"
    if i: "i < length (pixels img)" for i
  proof -
    define p where "p = pixels img ! i"
    have "p \<in> set (pixels img)" using i by (simp add: p_def)
    then have "length p = nbands (mode img)"
      using assms(2) by (simp add: wf_image_def list_all_iff)
    then have lp: "length p = 4" using assms(1) by (simp add: nbands_def)
    have o: "pixels out ! i = map2 (BLEND (p ! 3)) color p"
      using i by (simp add: out_def p_def)
    note f = flatten_pixel [OF lp assms(3)]
    have "\<forall>c<3. int (unat (pixels out ! i ! c)) =
               round (real (unat (color ! c)) * (1 - real (unat (p ! 3)) / 255)
                 + real (unat (p ! c)) * (real (unat (p ! 3)) / 255))"
    proof (intro allI impI)
      fix c :: nat
      assume "c < 3"
      with f have "pixels out ! i ! c = BLEND (p ! 3) (color ! c) (p ! c)"
        unfolding o by blast
      then show "int (unat (pixels out ! i ! c)) =
               round (real (unat (color ! c)) * (1 - real (unat (p ! 3)) / 255)
                 + real (unat (p ! c)) * (real (unat (p ! 3)) / 255))"
        by (simp only: BLEND_round)
    qed
    with f show ?thesis unfolding o p_def [symmetric] by blast
  qed
  have "mode out = ''RGB''" "im_size out = im_size img"
    "length (pixels out) = length (pixels img)"
    by (simp_all add: out_def)
  with r px show ?thesis by blast
qed

theorem alpha_flatten_witness:
  "\<exists>out. pure_pil_alpha_to_color_v2
       \<lparr>mode = ''RGBA'', im_size = (3, 1),
        pixels = [[10, 20, 30, 0], [10, 20, 30, 255], [10, 20, 30, 128]]\<rparr> white = Inr out
     \<and> mode out = ''RGB'' \<and> im_size out = (3, 1)
     \<and> pixels out ! 0 = [255, 255, 255]
     \<and> pixels out ! 1 = [10, 20, 30]
     \<and> pixels out = [[255, 255, 255], [10, 20, 30], [132, 137, 142]]"
proof -
  let ?img = "\<lparr>mode = ''RGBA'', im_size = (3, 1),
      pixels = [[10, 20, 30, 0], [10, 20, 30, 255], [10, 20, 30, 128 :: 8 word]]\<rparr>"
  have h1: "mode ?img = ''RGBA''" by simp
  have h2: "wf_image ?img" by (simp add: wf_image_def nbands_def)
  have h3: "length white = 3" by (simp add: white_def)
  from alpha_flatten [OF h1 h2 h3] obtain out where
    o: "pure_pil_alpha_to_color_v2 ?img white = Inr out"
    and m: "mode out = ''RGB''" "im_size out = im_size ?img"
    and px: "\<forall>i<length (pixels ?img).
         (pixels ?img ! i ! 3 = 0 \<longrightarrow> pixels out ! i = white)
       \<and> (pixels ?img ! i ! 3 = 255 \<longrightarrow> pixels out ! i = take 3 (pixels ?img ! i))"
    by blast
  from px [rule_format, of 0] have p0: "pixels out ! 0 = [255, 255, 255]"
    by (simp add: white_def)
  from px [rule_format, of 1] have p1: "pixels out ! 1 = [10, 20, 30]"
    by simp
  have "pure_pil_alpha_to_color_v2 ?img white =
     Inr \<lparr>mode = ''RGB'', im_size = (3, 1),
          pixels = [[255, 255, 255], [10, 20, 30], [132, 137, 142]]\<rparr>"
    by (simp add: flatten_result [OF h1 h2] white_def BLEND_0 BLEND_255 BLEND_def DIV255_def)
  with o have "pixels out = [[255, 255, 255], [10, 20, 30], [132, 137, 142]]" by auto
  with o m p0 p1 show ?thesis by simp
qed

subsection \<open>Fitting to the canvas\<close>






subsection \<open>Drawing the title\<close>

lemma draw_bitmap_empty:
  assumes "fst msize \<le> 0 \<or> snd msize \<le> 0"
  shows "draw_bitmap im coord msize cov ink = im"
proof -
  have "map (\<lambda>(i, p).
              let mx = int i mod fst (im_size im) - fst coord;
                  my = int i div fst (im_size im) - snd coord
              in if 0 \<le> mx \<and> mx < fst msize \<and> 0 \<le> my \<and> my < snd msize
                 then map2 (BLEND (cov mx my)) p ink else p)
         (zip [0..<length (pixels im)] (pixels im))
      = map snd (zip [0..<length (pixels im)] (pixels im))"
    using assms by (intro map_cong) (auto simp: Let_def)
  also have "\<dots> = pixels im" by simp
  finally show ?thesis by (simp add: draw_bitmap_def)
qed

lemma set_image_title_store:
  "\<exists>x. fst (set_image_title truetype st img title gravity padding fontsize) = st @ [x]"
  by (auto simp: set_image_title_def Image_copy_def ImageDraw_text_def Let_def
      split: sum.splits)

lemma set_image_title_returns:
  "snd (set_image_title truetype st img title gravity padding fontsize) = Inr ret
     \<Longrightarrow> ret = length st"
  by (auto simp: set_image_title_def Image_copy_def Let_def split: sum.splits)

lemma set_image_title_font_error:
  assumes "truetype fontsize = Inl e"
  shows "set_image_title truetype st img title gravity padding fontsize =
     (st @ [st ! img], Inl e)"
  using assms by (simp add: set_image_title_def Image_copy_def Let_def)

lemma ink_of_shadow: "3 \<le> nbands m \<Longrightarrow> ink_of m (Some [0, 0, 0, 127]) = Inr [0, 0, 0, 127]"
  by (simp add: ink_of_def)

lemma set_image_title_drawn:
  assumes "truetype fontsize = Inr f" and "3 \<le> nbands (mode (st ! img))"
    and "resolve gravity (getsize f (remove_tags title)) (im_size (st ! img)) padding = (x, y)"
    and "in_c_long (x + 2)" and "in_c_long (y + 2)" and "in_c_long x" and "in_c_long y"
  shows "set_image_title truetype st img title gravity padding fontsize =
     (st @ [render f
              (render f (st ! img) (trunc (x + 2), trunc (y + 2)) (remove_tags title)
                 [0, 0, 0, 127])
              (trunc x, trunc y) (remove_tags title) [255, 255, 255, 255]],
      Inr (length st))"
proof -
  have xy: "title_top_left_x (normalize_gravity gravity) (fst padding) (fst (im_size (st ! img)))
        (fst (getsize f (remove_tags title))) = x"
    "title_top_left_y (normalize_gravity gravity) (snd padding) (snd (im_size (st ! img)))
        (snd (getsize f (remove_tags title))) = y"
    using assms(3) by (simp_all add: resolve_def)
  show ?thesis
    using assms(1,2,4-7)
    by (simp add: set_image_title_def Image_copy_def ImageDraw_text_def Let_def xy
        ink_of_shadow c_coord_def ink_of_def)
qed

lemma remove_tags_Nil: "remove_tags [] = []"
  by (simp add: remove_tags_def strip_def)

lemma render_empty:
  assumes "fst (getsize f []) \<le> 0 \<or> snd (getsize f []) \<le> 0"
  shows "render f im coord [] ink = im"
  using assms by (simp add: render_def draw_bitmap_empty)

text \<open>
  C6. For every image, title, gravity, padding and font size, \<open>set_image_title\<close> leaves
  every object of the store as it was, its argument among them: the store after the call
  is the store before it with one new object, the copy, on which alone the text is drawn,
  and the object returned is that new one, never the argument.
\<close>

theorem set_image_title_frame:
  assumes "img < length st"
  shows "take (length st) (fst (set_image_title truetype st img title gravity padding fontsize)) = st
     \<and> length (fst (set_image_title truetype st img title gravity padding fontsize)) = Suc (length st)
     \<and> fst (set_image_title truetype st img title gravity padding fontsize) ! img = st ! img
     \<and> (\<forall>ret. snd (set_image_title truetype st img title gravity padding fontsize) = Inr ret \<longrightarrow>
           ret = length st \<and> ret \<noteq> img)"
proof -
  obtain x where x: "fst (set_image_title truetype st img title gravity padding fontsize) = st @ [x]"
    using set_image_title_store by blast
  have "\<forall>ret. snd (set_image_title truetype st img title gravity padding fontsize) = Inr ret \<longrightarrow>
           ret = length st \<and> ret \<noteq> img"
    using set_image_title_returns [of truetype st img title gravity padding fontsize] assms
    by auto
  then show ?thesis using assms by (simp add: x nth_append)
qed

theorem set_image_title_frame_witness:
  "fst (set_image_title (\<lambda>n. Inr block_font)
        [\<lparr>mode = ''RGB'', im_size = (1, 1), pixels = [[9, 9, 9]]\<rparr>] 0
        ''Title [HD]'' ''top left'' (0, 0) 12) ! 0
     = \<lparr>mode = ''RGB'', im_size = (1, 1), pixels = [[9, 9, 9]]\<rparr>
   \<and> snd (set_image_title (\<lambda>n. Inr block_font)
        [\<lparr>mode = ''RGB'', im_size = (1, 1), pixels = [[9, 9, 9]]\<rparr>] 0
        ''Title [HD]'' ''top left'' (0, 0) 12) = Inr 1
   \<and> pixels (fst (set_image_title (\<lambda>n. Inr block_font)
        [\<lparr>mode = ''RGB'', im_size = (1, 1), pixels = [[9, 9, 9]]\<rparr>] 0
        ''Title [HD]'' ''top left'' (0, 0) 12) ! 1) = [[255, 255, 255]]"
proof -
  let ?st = "[\<lparr>mode = ''RGB'', im_size = (1, 1), pixels = [[9, 9, 9 :: 8 word]]\<rparr>]"
  let ?tt = "\<lambda>n :: int. (Inr block_font :: exn + font)"
  have h: "0 < length ?st" by simp
  have t: "remove_tags ''Title [HD]'' = ''Title''" by code_simp
  have n: "normalize_gravity ''top left'' = ''topleft''" by code_simp
  have d: "set_image_title ?tt ?st 0 ''Title [HD]'' ''top left'' (0, 0) 12 =
      (?st @ [render block_font
                (render block_font (?st ! 0) (trunc (0 + 2), trunc (0 + 2))
                   (remove_tags ''Title [HD]'') [0, 0, 0, 127])
                (trunc 0, trunc 0) (remove_tags ''Title [HD]'') [255, 255, 255, 255]],
       Inr (length ?st))"
    by (rule set_image_title_drawn [where f = block_font and x = 0 and y = 0])
      (simp_all add: nbands_def in_c_long_def trunc_def resolve_def n
        title_top_left_x_def title_top_left_y_def)
  have e: "render block_font
                (render block_font (?st ! 0) (trunc (0 + 2), trunc (0 + 2)) ''Title''
                   [0, 0, 0, 127])
                (trunc 0, trunc 0) ''Title'' [255, 255, 255, 255]
      = \<lparr>mode = ''RGB'', im_size = (1, 1), pixels = [[255, 255, 255]]\<rparr>"
    by (simp add: render_def draw_bitmap_def block_font_def trunc_def BLEND_255)
  have s: "set_image_title ?tt ?st 0 ''Title [HD]'' ''top left'' (0, 0) 12 =
      (?st @ [\<lparr>mode = ''RGB'', im_size = (1, 1), pixels = [[255, 255, 255]]\<rparr>], Inr 1)"
    unfolding d t e by simp
  from set_image_title_frame [OF h, of ?tt "''Title [HD]''" "''top left''" "(0, 0)" 12]
  have "fst (set_image_title ?tt ?st 0 ''Title [HD]'' ''top left'' (0, 0) 12) ! 0 = ?st ! 0"
    by blast
  with s show ?thesis by simp
qed

text \<open>
  C7 (as amended). For every image of a mode of three or four bands (such as "RGB" and
  "RGBA") and coordinates within a C long, where the title sanitises to the empty string
  (an empty title, only whitespace, only tags) and the font measures the empty string
  with no width or no height, \<open>set_image_title\<close> draws nothing: both passes paint an empty
  bitmap, and the function returns a new object whose contents are those of its argument.
  Running it again on that result with an empty caption gives once more an identical
  copy.
\<close>

theorem set_image_title_empty_title:
  assumes "remove_tags title = []" and "truetype fontsize = Inr f"
    and "fst (getsize f []) \<le> 0 \<or> snd (getsize f []) \<le> 0"
    and "3 \<le> nbands (mode (st ! img))"
    and "resolve gravity (getsize f []) (im_size (st ! img)) padding = (x, y)"
    and "in_c_long (x + 2)" and "in_c_long (y + 2)" and "in_c_long x" and "in_c_long y"
  shows "set_image_title truetype st img title gravity padding fontsize =
       (st @ [st ! img], Inr (length st))
     \<and> set_image_title truetype (st @ [st ! img]) (length st) [] gravity padding fontsize =
       (st @ [st ! img, st ! img], Inr (Suc (length st)))
     \<and> remove_tags [] = [] \<and> remove_tags ''   '' = [] \<and> remove_tags ''[HD] (2020)'' = []"
proof -
  have r1: "resolve gravity (getsize f (remove_tags title)) (im_size (st ! img)) padding = (x, y)"
    using assms(5) by (simp add: assms(1))
  have a: "set_image_title truetype st img title gravity padding fontsize =
       (st @ [st ! img], Inr (length st))"
    unfolding set_image_title_drawn
      [of truetype fontsize f st img gravity title padding x y, OF assms(2,4) r1 assms(6-9)]
    by (simp add: assms(1) render_empty [OF assms(3)])
  let ?st = "st @ [st ! img]"
  have m: "3 \<le> nbands (mode (?st ! length st))" using assms(4) by simp
  have r2: "resolve gravity (getsize f (remove_tags [])) (im_size (?st ! length st)) padding
      = (x, y)"
    using assms(5) by (simp add: remove_tags_Nil)
  have b: "set_image_title truetype ?st (length st) [] gravity padding fontsize =
       (st @ [st ! img, st ! img], Inr (Suc (length st)))"
    unfolding set_image_title_drawn
      [of truetype fontsize f ?st "length st" gravity "[]" padding x y,
        OF assms(2) m r2 assms(6-9)]
    by (simp add: remove_tags_Nil render_empty [OF assms(3)])
  have c: "remove_tags ''   '' = []" by code_simp
  have d: "remove_tags ''[HD] (2020)'' = []" by code_simp
  from a b c d remove_tags_Nil show ?thesis by blast
qed

theorem set_image_title_empty_title_witness:
  "set_image_title (\<lambda>n. Inr block_font)
     [\<lparr>mode = ''RGB'', im_size = (1, 1), pixels = [[9, 9, 9]]\<rparr>] 0
     '' [HD] (2020) '' ''top left'' (0, 0) 12
   = ([\<lparr>mode = ''RGB'', im_size = (1, 1), pixels = [[9, 9, 9]]\<rparr>,
       \<lparr>mode = ''RGB'', im_size = (1, 1), pixels = [[9, 9, 9]]\<rparr>], Inr 1)"
proof -
  let ?st = "[\<lparr>mode = ''RGB'', im_size = (1, 1), pixels = [[9, 9, 9 :: 8 word]]\<rparr>]"
  let ?tt = "\<lambda>n :: int. (Inr block_font :: exn + font)"
  have h1: "remove_tags '' [HD] (2020) '' = []" by code_simp
  have h2: "?tt 12 = Inr block_font" by simp
  have h3: "fst (getsize block_font []) \<le> 0 \<or> snd (getsize block_font []) \<le> 0"
    by (simp add: block_font_def)
  have h4: "3 \<le> nbands (mode (?st ! 0))" by (simp add: nbands_def)
  have n: "normalize_gravity ''top left'' = ''topleft''" by code_simp
  have h5: "resolve ''top left'' (getsize block_font []) (im_size (?st ! 0)) (0, 0) = (0, 0)"
    by (simp add: resolve_def n title_top_left_x_def title_top_left_y_def)
  have h6: "in_c_long (0 + 2)" "in_c_long 0" by (simp_all add: in_c_long_def trunc_def)
  from set_image_title_empty_title [where truetype = ?tt and fontsize = 12 and f = block_font
      and title = "'' [HD] (2020) ''" and st = ?st and img = 0 and gravity = "''top left''"
      and padding = "(0, 0)" and x = 0 and y = 0, OF h1 h2 h3 h4 h5 h6(1) h6(1) h6(2) h6(2)]
  have "set_image_title ?tt ?st 0 '' [HD] (2020) '' ''top left'' (0, 0) 12 =
      (?st @ [?st ! 0], Inr (length ?st))"
    by blast
  then show ?thesis by simp
qed

text \<open>
  C7 as stated fails on an image of one band: the first pass passes the four-value fill,
  which does not fit mode "L", and the call ends with \<open>TypeError\<close> before any text,
  empty or not, is looked at.
\<close>

theorem set_image_title_mode_L_counterexample:
  "snd (set_image_title (\<lambda>n. Inr block_font)
     [\<lparr>mode = ''L'', im_size = (1, 1), pixels = [[9]]\<rparr>] 0 [] ''center'' (0, 0) 12)
   = Inl TypeError"
  by (simp add: set_image_title_def Image_copy_def ImageDraw_text_def Let_def ink_of_def
      nbands_def)

text \<open>
  C8 (as amended). For every caption render on an image of a mode of three or four bands
  (such as "RGB" and "RGBA") with coordinates within a C long, the text is drawn on the
  copy in two passes in a fixed order: first the sanitised title offset by (+2, +2) from
  the resolved coordinates with the fill (0, 0, 0, 127), black at alpha 127, then the
  sanitised title at the resolved coordinates with no fill given, that is in the default
  ink of the drawing context, four bytes 255: opaque white on "RGB" and "RGBA". No
  colour is configurable.
\<close>

theorem set_image_title_two_passes:
  assumes "truetype fontsize = Inr f" and "3 \<le> nbands (mode (st ! img))"
    and "resolve gravity (getsize f (remove_tags title)) (im_size (st ! img)) padding = (x, y)"
    and "in_c_long (x + 2)" and "in_c_long (y + 2)" and "in_c_long x" and "in_c_long y"
  shows "set_image_title truetype st img title gravity padding fontsize =
     (let t = remove_tags title;
          shadow = render f (st ! img) (trunc (x + 2), trunc (y + 2)) t [0, 0, 0, 127];
          primary = render f shadow (trunc x, trunc y) t [255, 255, 255, 255]
      in (st @ [primary], Inr (length st)))"
  unfolding Let_def
  by (rule set_image_title_drawn
      [where truetype = truetype and fontsize = fontsize and f = f, OF assms])

theorem set_image_title_two_passes_witness:
  "set_image_title (\<lambda>n. Inr block_font)
     [\<lparr>mode = ''RGB'', im_size = (3, 3),
       pixels = replicate 9 [9, 9, 9]\<rparr>] 0
     ''T [HD]'' ''top left'' (0, 0) 12
   = ([\<lparr>mode = ''RGB'', im_size = (3, 3), pixels = replicate 9 [9, 9, 9]\<rparr>,
       \<lparr>mode = ''RGB'', im_size = (3, 3), pixels = replicate 9 [255, 255, 255]\<rparr>], Inr 1)"
proof -
  let ?st = "[\<lparr>mode = ''RGB'', im_size = (3, 3), pixels = replicate 9 [9, 9, 9 :: 8 word]\<rparr>]"
  let ?tt = "\<lambda>n :: int. (Inr block_font :: exn + font)"
  have t: "remove_tags ''T [HD]'' = ''T''" by code_simp
  have n: "normalize_gravity ''top left'' = ''topleft''" by code_simp
  have d: "set_image_title ?tt ?st 0 ''T [HD]'' ''top left'' (0, 0) 12 =
     (let t = remove_tags ''T [HD]'';
          shadow = render block_font (?st ! 0) (trunc (0 + 2), trunc (0 + 2)) t [0, 0, 0, 127];
          primary = render block_font shadow (trunc 0, trunc 0) t [255, 255, 255, 255]
      in (?st @ [primary], Inr (length ?st)))"
    by (rule set_image_title_two_passes [where f = block_font and x = 0 and y = 0])
      (simp_all add: nbands_def in_c_long_def trunc_def resolve_def n
        title_top_left_x_def title_top_left_y_def)
  show ?thesis
    unfolding d Let_def t
    by (simp add: render_def draw_bitmap_def block_font_def trunc_def BLEND_255
        eval_nat_numeral)
qed

text \<open>
  C8 as stated fails on the colour of the second pass: with a font whose glyphs cover
  their cells fully, the pixel under the primary text is white, the default ink, where
  black primary text would leave it black.
\<close>

theorem set_image_title_ink_counterexample:
  "pixels (fst (set_image_title (\<lambda>n. Inr block_font)
       [\<lparr>mode = ''RGB'', im_size = (1, 1), pixels = [[9, 9, 9]]\<rparr>] 0
       ''Title'' ''top left'' (0, 0) 12) ! 1) = [[255, 255, 255]]
   \<and> ink_of ''RGB'' None = Inr [255, 255, 255, 255]"
proof -
  have t: "remove_tags ''Title'' = ''Title''" by code_simp
  have n: "normalize_gravity ''top left'' = ''topleft''" by code_simp
  have "pixels (fst (set_image_title (\<lambda>n. Inr block_font)
       [\<lparr>mode = ''RGB'', im_size = (1, 1), pixels = [[9, 9, 9]]\<rparr>] 0
       ''Title'' ''top left'' (0, 0) 12) ! 1) = [[255, 255, 255]]"
    by (simp add: set_image_title_def Image_copy_def ImageDraw_text_def Let_def t n
        ink_of_def nbands_def c_coord_def in_c_long_def trunc_def title_top_left_x_def
        title_top_left_y_def render_def draw_bitmap_def block_font_def BLEND_255)
  then show ?thesis by (simp add: ink_of_def)
qed

subsection \<open>Downloading\<close>

lemma mode_Image_convert_RGB: "mode (Image_convert_RGB other im) = ''RGB''"
  by (simp add: Image_convert_RGB_def)

lemma download_image_decoded:
  assumes "requests_get url = Inr r" and "Image_open r = Inr im"
  shows "download_image requests_get Image_open other url =
     ([(INFO, ''Downloading '' @ url)], Inr (Image_convert_RGB other im))"
  using assms by (simp add: download_image_def Let_def mode_Image_convert_RGB)

lemma download_image_cases:
  "(\<exists>e. requests_get url = Inl e
        \<and> download_image requests_get Image_open other url = except_IOError [] e)
   \<or> (\<exists>r e. requests_get url = Inr r \<and> Image_open r = Inl e
        \<and> download_image requests_get Image_open other url =
            except_IOError [(INFO, ''Downloading '' @ url)] e)
   \<or> (\<exists>r im. requests_get url = Inr r \<and> Image_open r = Inr im
        \<and> download_image requests_get Image_open other url =
            ([(INFO, ''Downloading '' @ url)], Inr (Image_convert_RGB other im)))"
proof (cases "requests_get url")
  case (Inl e)
  then show ?thesis by (simp add: download_image_def)
next
  case (Inr r)
  show ?thesis
  proof (cases "Image_open r")
    case (Inl e)
    with Inr show ?thesis by (simp add: download_image_def)
  next
    case (Inr im)
    with \<open>requests_get url = Inr r\<close> show ?thesis
      by (simp add: download_image_decoded)
  qed
qed

lemma except_IOError_no_image: "snd (except_IOError lg e) \<noteq> Inr img"
  by (simp add: except_IOError_def)

lemma except_IOError_log:
  "set (fst (except_IOError lg e)) \<subseteq> set lg \<union> {(ERROR, ''Error downloading image!'')}"
  by (auto simp: except_IOError_def)

text \<open>
  C10. \<open>download_image\<close> converts the decoded image to mode "RGB" before it tests for
  mode "RGBA": the test is false, the debug line of the branch is never logged and
  \<open>pure_pil_alpha_to_color_v2\<close> is never applied. Every image returned has mode "RGB"; it
  is the converted image, and for an "RGBA" source each of its pixels is the source's
  three colour bands, the alpha band dropped and nothing composited.
\<close>

theorem download_image_never_flattens:
  "(DEBUG, ''Removing alpha layer...'') \<notin> set (fst (download_image requests_get Image_open other url))
   \<and> (\<forall>img. snd (download_image requests_get Image_open other url) = Inr img \<longrightarrow>
         mode img = ''RGB'')
   \<and> (requests_get url = Inr r \<and> Image_open r = Inr im \<longrightarrow>
         download_image requests_get Image_open other url =
           ([(INFO, ''Downloading '' @ url)], Inr (Image_convert_RGB other im)))
   \<and> (requests_get url = Inr r \<and> Image_open r = Inr im \<and> mode im = ''RGBA'' \<longrightarrow>
         (\<exists>img. snd (download_image requests_get Image_open other url) = Inr img
            \<and> im_size img = im_size im \<and> pixels img = map (take 3) (pixels im)))"
proof -
  note c = download_image_cases [of requests_get url Image_open other]
  have a: "(DEBUG, ''Removing alpha layer...'')
      \<notin> set (fst (download_image requests_get Image_open other url))"
  proof -
    have "(DEBUG, ''Removing alpha layer...'') \<notin> set (fst (except_IOError lg e))"
      if "(DEBUG, ''Removing alpha layer...'') \<notin> set lg" for lg e
      using that except_IOError_log [of lg e] by auto
    with c show ?thesis by auto
  qed
  have b: "\<forall>img. snd (download_image requests_get Image_open other url) = Inr img \<longrightarrow>
         mode img = ''RGB''"
    using c except_IOError_no_image mode_Image_convert_RGB by (metis snd_conv sum.inject(2))
  have d: "requests_get url = Inr r \<and> Image_open r = Inr im \<longrightarrow>
         download_image requests_get Image_open other url =
           ([(INFO, ''Downloading '' @ url)], Inr (Image_convert_RGB other im))"
    by (simp add: download_image_decoded)
  have e: "requests_get url = Inr r \<and> Image_open r = Inr im \<and> mode im = ''RGBA'' \<longrightarrow>
         (\<exists>img. snd (download_image requests_get Image_open other url) = Inr img
            \<and> im_size img = im_size im \<and> pixels img = map (take 3) (pixels im))"
    by (simp add: download_image_decoded Image_convert_RGB_def)
  from a b d e show ?thesis by blast
qed

theorem download_image_never_flattens_witness:
  "download_image (\<lambda>u. Inr (0 :: nat))
     (\<lambda>r. Inr \<lparr>mode = ''RGBA'', im_size = (1, 1), pixels = [[0, 0, 0, 0]]\<rparr>) (\<lambda>im. []) ''u''
   = ([(INFO, ''Downloading u'')], Inr \<lparr>mode = ''RGB'', im_size = (1, 1), pixels = [[0, 0, 0]]\<rparr>)
   \<and> pure_pil_alpha_to_color_v2
       \<lparr>mode = ''RGBA'', im_size = (1, 1), pixels = [[0, 0, 0, 0]]\<rparr> white
     = Inr \<lparr>mode = ''RGB'', im_size = (1, 1), pixels = [[255, 255, 255]]\<rparr>"
proof -
  let ?im = "\<lparr>mode = ''RGBA'', im_size = (1, 1), pixels = [[0, 0, 0, 0 :: 8 word]]\<rparr>"
  let ?get = "\<lambda>u :: string. (Inr 0 :: exn + nat)"
  let ?open = "\<lambda>r :: nat. (Inr ?im :: exn + image)"
  let ?other = "\<lambda>im :: image. ([] :: pixel list)"
  have h: "?get ''u'' = Inr 0 \<and> ?open 0 = Inr ?im" by simp
  from download_image_never_flattens [of ?get ?open ?other "''u''" 0 ?im] h
  have "download_image ?get ?open ?other ''u'' =
      ([(INFO, ''Downloading '' @ ''u'')], Inr (Image_convert_RGB ?other ?im))"
    by blast
  then have a: "download_image ?get ?open ?other ''u'' =
      ([(INFO, ''Downloading u'')], Inr \<lparr>mode = ''RGB'', im_size = (1, 1), pixels = [[0, 0, 0]]\<rparr>)"
    by (simp add: Image_convert_RGB_def)
  have h1: "mode ?im = ''RGBA''" by simp
  have h2: "wf_image ?im" by (simp add: wf_image_def nbands_def)
  have b: "pure_pil_alpha_to_color_v2 ?im white =
      Inr \<lparr>mode = ''RGB'', im_size = (1, 1), pixels = [[255, 255, 255]]\<rparr>"
    by (simp add: flatten_result [OF h1 h2] white_def BLEND_0)
  from a b show ?thesis by blast
qed

lemma compose_download_error:
  assumes "snd (download_image requests_get Image_open other url) = Inl e"
  shows "compose requests_get Image_open other crop resample truetype st url width height
       title gravity padding fontsize =
     (fst (download_image requests_get Image_open other url), st, Inl e)"
  using assms by (cases "download_image requests_get Image_open other url")
    (simp add: compose_def)

text \<open>
  C9 (as amended). For every pipeline invocation, a failure at any stage short-circuits
  the remaining stages and no image is returned: a failed download leaves the store as it
  was, so neither the fit nor the caption renderer ran (in particular a decode failure
  never allows the caption renderer to run), a failed fit likewise, and a failure of the
  renderer ends the call with its exception. No error is swallowed, but the error
  surfaced does not identify the stage: an \<open>IOError\<close> of the fetch or of the decoding is
  logged as "Error downloading image!" and replaced by the process exit
  \<open>SystemExit(1)\<close>, the same for both stages, and every other exception, of any stage,
  leaves the call unchanged.
\<close>

theorem pipeline_failure:
  "(requests_get url = Inl IOError \<longrightarrow>
      download_image requests_get Image_open other url =
        ([(ERROR, ''Error downloading image!'')], Inl (SystemExit 1)))
   \<and> (requests_get url = Inl e \<and> e \<noteq> IOError \<longrightarrow>
      download_image requests_get Image_open other url = ([], Inl e))
   \<and> (requests_get url = Inr r \<and> Image_open r = Inl IOError \<longrightarrow>
      download_image requests_get Image_open other url =
        ([(INFO, ''Downloading '' @ url), (ERROR, ''Error downloading image!'')],
         Inl (SystemExit 1)))
   \<and> (requests_get url = Inr r \<and> Image_open r = Inl e \<and> e \<noteq> IOError \<longrightarrow>
      download_image requests_get Image_open other url =
        ([(INFO, ''Downloading '' @ url)], Inl e))
   \<and> ((\<exists>e. requests_get url = Inl e) \<or> (\<exists>r e. requests_get url = Inr r \<and> Image_open r = Inl e) \<longrightarrow>
      (\<forall>img. snd (download_image requests_get Image_open other url) \<noteq> Inr img))
   \<and> (snd (download_image requests_get Image_open other url) = Inl ed \<longrightarrow>
      compose requests_get Image_open other crop resample truetype st url width height
          title gravity padding fontsize =
        (fst (download_image requests_get Image_open other url), st, Inl ed))
   \<and> (download_image requests_get Image_open other url = (lg, Inr im)
        \<and> resize_image crop resample im width height = Inl ef \<longrightarrow>
      compose requests_get Image_open other crop resample truetype st url width height
          title gravity padding fontsize = (lg, st, Inl ef))
   \<and> (download_image requests_get Image_open other url = (lg, Inr im)
        \<and> resize_image crop resample im width height = Inr fitted
        \<and> snd (set_image_title truetype (st @ [fitted]) (length st)
              title gravity padding fontsize) = Inl er \<longrightarrow>
      snd (snd (compose requests_get Image_open other crop resample truetype st url width
          height title gravity padding fontsize)) = Inl er)
   \<and> (requests_get url = Inr r \<and> Image_open r = Inl e \<longrightarrow>
      fst (snd (compose requests_get Image_open other crop resample truetype st url width
          height title gravity padding fontsize)) = st
      \<and> (\<forall>obj. snd (snd (compose requests_get Image_open other crop resample truetype st url
          width height title gravity padding fontsize)) \<noteq> Inr obj))"
proof -
  have a: "requests_get url = Inl IOError \<longrightarrow>
      download_image requests_get Image_open other url =
        ([(ERROR, ''Error downloading image!'')], Inl (SystemExit 1))"
    by (simp add: download_image_def except_IOError_def)
  have b: "requests_get url = Inl e \<and> e \<noteq> IOError \<longrightarrow>
      download_image requests_get Image_open other url = ([], Inl e)"
    by (simp add: download_image_def except_IOError_def)
  have c: "requests_get url = Inr r \<and> Image_open r = Inl IOError \<longrightarrow>
      download_image requests_get Image_open other url =
        ([(INFO, ''Downloading '' @ url), (ERROR, ''Error downloading image!'')],
         Inl (SystemExit 1))"
    by (simp add: download_image_def except_IOError_def)
  have d: "requests_get url = Inr r \<and> Image_open r = Inl e \<and> e \<noteq> IOError \<longrightarrow>
      download_image requests_get Image_open other url =
        ([(INFO, ''Downloading '' @ url)], Inl e)"
    by (simp add: download_image_def except_IOError_def)
  have f: "(\<exists>e. requests_get url = Inl e) \<or> (\<exists>r e. requests_get url = Inr r \<and> Image_open r = Inl e) \<longrightarrow>
      (\<forall>img. snd (download_image requests_get Image_open other url) \<noteq> Inr img)"
    by (auto simp: download_image_def except_IOError_no_image)
  have g: "snd (download_image requests_get Image_open other url) = Inl ed \<longrightarrow>
      compose requests_get Image_open other crop resample truetype st url width height
          title gravity padding fontsize =
        (fst (download_image requests_get Image_open other url), st, Inl ed)"
    using compose_download_error by blast
  have h: "download_image requests_get Image_open other url = (lg, Inr im)
        \<and> resize_image crop resample im width height = Inl ef \<longrightarrow>
      compose requests_get Image_open other crop resample truetype st url width height
          title gravity padding fontsize = (lg, st, Inl ef)"
    by (simp add: compose_def)
  have i: "download_image requests_get Image_open other url = (lg, Inr im)
        \<and> resize_image crop resample im width height = Inr fitted
        \<and> snd (set_image_title truetype (st @ [fitted]) (length st)
              title gravity padding fontsize) = Inl er \<longrightarrow>
      snd (snd (compose requests_get Image_open other crop resample truetype st url width
          height title gravity padding fontsize)) = Inl er"
    by (simp add: compose_def split_beta)
  have j: "requests_get url = Inr r \<and> Image_open r = Inl e \<longrightarrow>
      fst (snd (compose requests_get Image_open other crop resample truetype st url width
          height title gravity padding fontsize)) = st
      \<and> (\<forall>obj. snd (snd (compose requests_get Image_open other crop resample truetype st url
          width height title gravity padding fontsize)) \<noteq> Inr obj)"
  proof
    assume x: "requests_get url = Inr r \<and> Image_open r = Inl e"
    then have "download_image requests_get Image_open other url =
        except_IOError [(INFO, ''Downloading '' @ url)] e"
      by (simp add: download_image_def)
    then have "snd (download_image requests_get Image_open other url) =
        Inl (if e = IOError then SystemExit 1 else e)"
      by (simp add: except_IOError_def)
    then obtain e' where "snd (download_image requests_get Image_open other url) = Inl e'"
      by blast
    from compose_download_error [OF this] show
      "fst (snd (compose requests_get Image_open other crop resample truetype st url width
          height title gravity padding fontsize)) = st
      \<and> (\<forall>obj. snd (snd (compose requests_get Image_open other crop resample truetype st url
          width height title gravity padding fontsize)) \<noteq> Inr obj)"
      by simp
  qed
  from a b c d f g h i j show ?thesis by blast
qed

theorem pipeline_failure_witness:
  "download_image (\<lambda>u. (Inl IOError :: exn + nat)) (\<lambda>r. Inl ValueError) (\<lambda>im. []) ''u''
     = ([(ERROR, ''Error downloading image!'')], Inl (SystemExit 1))
   \<and> download_image (\<lambda>u. (Inl ValueError :: exn + nat)) (\<lambda>r. Inl IOError) (\<lambda>im. []) ''u''
     = ([], Inl ValueError)
   \<and> download_image (\<lambda>u. (Inr 0 :: exn + nat)) (\<lambda>r. Inl IOError) (\<lambda>im. []) ''u''
     = ([(INFO, ''Downloading u''), (ERROR, ''Error downloading image!'')], Inl (SystemExit 1))
   \<and> download_image (\<lambda>u. (Inr 0 :: exn + nat)) (\<lambda>r. Inl ValueError) (\<lambda>im. []) ''u''
     = ([(INFO, ''Downloading u'')], Inl ValueError)
   \<and> compose (\<lambda>u. (Inr 0 :: exn + nat)) (\<lambda>r. Inl IOError) (\<lambda>im. []) exact_crop
       (\<lambda>im bx sz. []) (\<lambda>n. Inr block_font) [] ''u'' 4 3 ''T'' ''top'' (0, 0) 12
     = ([(INFO, ''Downloading u''), (ERROR, ''Error downloading image!'')], [],
        Inl (SystemExit 1))
   \<and> compose (\<lambda>u. (Inr 0 :: exn + nat))
       (\<lambda>r. Inr \<lparr>mode = ''RGB'', im_size = (1, 1), pixels = [[9, 9, 9]]\<rparr>) (\<lambda>im. [])
       exact_crop (\<lambda>im bx sz. []) (\<lambda>n. Inr block_font) [] ''u'' 4 0 ''T'' ''top'' (0, 0) 12
     = ([(INFO, ''Downloading u'')], [], Inl ZeroDivisionError)
   \<and> snd (snd (compose (\<lambda>u. (Inr 0 :: exn + nat))
       (\<lambda>r. Inr \<lparr>mode = ''RGB'', im_size = (1, 1), pixels = [[9, 9, 9]]\<rparr>) (\<lambda>im. [])
       exact_crop (\<lambda>im bx sz. []) (\<lambda>n. Inl IOError) [] ''u'' 1 1 ''T'' ''top'' (0, 0) 12))
     = Inl IOError"
proof -
  let ?other = "\<lambda>im :: image. ([] :: pixel list)"
  let ?R = "\<lambda>(im :: image) (bx :: box) (sz :: int \<times> int). ([] :: pixel list)"
  let ?im = "\<lparr>mode = ''RGB'', im_size = (1, 1), pixels = [[9, 9, 9 :: 8 word]]\<rparr>"
  let ?ok = "\<lambda>u :: string. (Inr 0 :: exn + nat)"
  let ?dec = "\<lambda>r :: nat. (Inr ?im :: exn + image)"
  let ?bf = "\<lambda>n :: int. (Inr block_font :: exn + font)"
  have a: "download_image (\<lambda>u. (Inl IOError :: exn + nat)) (\<lambda>r. Inl ValueError) ?other ''u''
     = ([(ERROR, ''Error downloading image!'')], Inl (SystemExit 1))"
    using pipeline_failure [where requests_get = "\<lambda>u. (Inl IOError :: exn + nat)"
        and url = "''u''" and Image_open = "\<lambda>r. Inl ValueError" and other = ?other]
    by simp
  have b: "download_image (\<lambda>u. (Inl ValueError :: exn + nat)) (\<lambda>r. Inl IOError) ?other ''u''
     = ([], Inl ValueError)"
    using pipeline_failure [where requests_get = "\<lambda>u. (Inl ValueError :: exn + nat)"
        and url = "''u''" and Image_open = "\<lambda>r. Inl IOError" and other = ?other
        and e = ValueError]
    by simp
  have c: "download_image ?ok (\<lambda>r. Inl IOError) ?other ''u''
     = ([(INFO, ''Downloading u''), (ERROR, ''Error downloading image!'')], Inl (SystemExit 1))"
    using pipeline_failure [where requests_get = ?ok
        and url = "''u''" and Image_open = "\<lambda>r. Inl IOError" and other = ?other and r = 0]
    by simp
  have d: "download_image ?ok (\<lambda>r. Inl ValueError) ?other ''u''
     = ([(INFO, ''Downloading u'')], Inl ValueError)"
    using pipeline_failure [where requests_get = ?ok
        and url = "''u''" and Image_open = "\<lambda>r. Inl ValueError" and other = ?other
        and e = ValueError and r = 0]
    by simp
  have e: "compose ?ok (\<lambda>r. Inl IOError) ?other exact_crop ?R ?bf [] ''u'' 4 3
       ''T'' ''top'' (0, 0) 12
     = ([(INFO, ''Downloading u''), (ERROR, ''Error downloading image!'')], [],
        Inl (SystemExit 1))"
    using pipeline_failure [where requests_get = ?ok
        and url = "''u''" and Image_open = "\<lambda>r. Inl IOError" and other = ?other
        and ed = "SystemExit 1" and crop = exact_crop and resample = ?R and truetype = ?bf
        and st = "[]" and width = 4 and height = 3 and title = "''T''" and gravity = "''top''"
        and padding = "(0, 0)" and fontsize = 12]
    by (simp add: c)
  have dl: "download_image ?ok ?dec ?other ''u'' = ([(INFO, ''Downloading u'')], Inr ?im)"
    by (simp add: download_image_decoded Image_convert_RGB_def)
  have f: "compose ?ok ?dec ?other exact_crop ?R ?bf [] ''u'' 4 0 ''T'' ''top'' (0, 0) 12
     = ([(INFO, ''Downloading u'')], [], Inl ZeroDivisionError)"
    using pipeline_failure [where requests_get = ?ok
        and url = "''u''" and Image_open = ?dec and other = ?other
        and lg = "[(INFO, ''Downloading u'')]" and im = ?im and ef = ZeroDivisionError
        and crop = exact_crop and resample = ?R and truetype = ?bf
        and st = "[]" and width = 4 and height = 0 and title = "''T''" and gravity = "''top''"
        and padding = "(0, 0)" and fontsize = 12]
    by (simp add: dl resize_image_def ImageOps_fit_def)
  have rs: "resize_image exact_crop ?R ?im 1 1 = Inr ?im"
    by (simp add: resize_image_def ImageOps_fit_def Image_resize_def exact_crop_def Let_def)
  have g: "snd (snd (compose ?ok ?dec ?other exact_crop ?R (\<lambda>n. Inl IOError) [] ''u'' 1 1
       ''T'' ''top'' (0, 0) 12)) = Inl IOError"
    using pipeline_failure [where requests_get = ?ok
        and url = "''u''" and Image_open = ?dec and other = ?other
        and lg = "[(INFO, ''Downloading u'')]" and im = ?im and fitted = ?im and er = IOError
        and crop = exact_crop and resample = ?R
        and truetype = "\<lambda>n :: int. (Inl IOError :: exn + font)"
        and st = "[]" and width = 1 and height = 1 and title = "''T''" and gravity = "''top''"
        and padding = "(0, 0)" and fontsize = 12]
    by (simp add: dl rs set_image_title_font_error)
  from a b c d e f g show ?thesis by blast
qed

text \<open>
  C9 as stated fails: a failed fetch and a failed decoding surface as the same
  \<open>SystemExit(1)\<close>, which names no stage and is not the error that was raised.
\<close>

theorem download_image_stage_counterexample:
  "snd (download_image (\<lambda>u. (Inl IOError :: exn + nat)) (\<lambda>r. Inl ValueError) (\<lambda>im. []) ''u'')
     = Inl (SystemExit 1)
   \<and> snd (download_image (\<lambda>u. (Inr 0 :: exn + nat)) (\<lambda>r. Inl IOError) (\<lambda>im. []) ''u'')
     = Inl (SystemExit 1)"
  by (simp add: download_image_def except_IOError_def)

end
